theory Spec2Isabelle
  imports Complex_Main
begin

section \<open>Numbers, matrices and errors\<close>

text \<open>
  The clustering engine of \<^verbatim>\<open>luma/clustering/kmeans.py\<close> works on numpy arrays. The entries
  of the caller's data matrix (a float array) are modelled as real numbers. The reference set (centroids or
  medians) additionally needs numpy's \<^verbatim>\<open>nan\<close>: the mean and the median of an empty
  selection of rows are \<^verbatim>\<open>nan\<close> (with a warning, not an exception), \<^verbatim>\<open>nan\<close> propagates through
  arithmetic, every comparison with it is false, and \<^verbatim>\<open>np.argmin\<close> treats it as the minimum.
  Rounding, overflow and infinities are not modelled.

  A matrix is the list of its rows; all rows of a matrix have the same length, the number
  of columns.
\<close>

datatype npfloat = NaN | Fin real

type_synonym matrix = "real list list"
type_synonym refset = "npfloat list list"

fun is_nan :: "npfloat \<Rightarrow> bool" where
  "is_nan NaN = True"
| "is_nan (Fin _) = False"

fun np_add :: "npfloat \<Rightarrow> npfloat \<Rightarrow> npfloat" where
  "np_add (Fin a) (Fin b) = Fin (a + b)"
| "np_add _ _ = NaN"

fun np_sub :: "npfloat \<Rightarrow> npfloat \<Rightarrow> npfloat" where
  "np_sub (Fin a) (Fin b) = Fin (a - b)"
| "np_sub _ _ = NaN"

fun np_abs :: "npfloat \<Rightarrow> npfloat" where
  "np_abs (Fin a) = Fin \<bar>a\<bar>"
| "np_abs NaN = NaN"

fun np_square :: "npfloat \<Rightarrow> npfloat" where
  "np_square (Fin a) = Fin (a ^ 2)"
| "np_square NaN = NaN"

fun np_sqrt :: "npfloat \<Rightarrow> npfloat" where
  "np_sqrt (Fin a) = Fin (sqrt a)"
| "np_sqrt NaN = NaN"

text \<open>\<^verbatim>\<open>a >= b\<close> and \<^verbatim>\<open>a == b\<close> on floats: false as soon as one side is \<^verbatim>\<open>nan\<close>.\<close>

fun np_ge :: "npfloat \<Rightarrow> npfloat \<Rightarrow> bool" where
  "np_ge (Fin a) (Fin b) = (a \<ge> b)"
| "np_ge _ _ = False"

fun np_eq :: "npfloat \<Rightarrow> npfloat \<Rightarrow> bool" where
  "np_eq (Fin a) (Fin b) = (a = b)"
| "np_eq _ _ = False"

definition np_sum :: "npfloat list \<Rightarrow> npfloat" where
  "np_sum xs = foldr np_add xs (Fin 0)"

text \<open>
  The errors the engine can raise. \<^verbatim>\<open>NotFittedError(self)\<close> carries the estimator
  instance; the \<^verbatim>\<open>ValueError\<close>s come from numpy and are told apart by their cause.
\<close>

datatype value_error =
    EmptyPopulation
  | SampleLargerThanPopulation
  | NegativeDimensions
  | ProbabilitiesNaN
  | ProbabilitiesInvalid
  | ArgminEmptySequence

text \<open>
  The four classes have the same attributes, apart from \<^verbatim>\<open>batch_size\<close> (mini-batch only),
  \<^verbatim>\<open>verbose\<close> (absent from mini-batch) and the name of the reference set
  (\<^verbatim>\<open>medians\<close> in K-Medians, \<^verbatim>\<open>centroids\<close> elsewhere). One record stands for an instance of
  any of them: \<open>X_train\<close> is \<^verbatim>\<open>_X\<close>, \<open>fitted\<close> is \<^verbatim>\<open>_fitted\<close>, and \<open>centroids\<close> is
  \<open>None\<close> while the attribute is unset (or \<^verbatim>\<open>None\<close>).
\<close>

record estimator =
  n_clusters :: int
  batch_size :: int
  max_iter :: int
  verbose :: bool
  X_train :: "matrix option"
  fitted :: bool
  centroids :: "refset option"

datatype error =
    NotFittedError estimator
  | ValueError value_error
  | NameError
  | TypeError
  | AttributeError

section \<open>The numpy primitives the engine uses\<close>

subsection \<open>Distances and argmin\<close>

text \<open>\<^verbatim>\<open>x - c\<close> for a data row and a reference row.\<close>

definition row_sub :: "real list \<Rightarrow> npfloat list \<Rightarrow> npfloat list" where
  "row_sub x c = map2 (\<lambda>a b. np_sub (Fin a) b) x c"

text \<open>\<^verbatim>\<open>np.linalg.norm(v)\<close> along the last axis: the Euclidean norm.\<close>

definition linalg_norm :: "npfloat list \<Rightarrow> npfloat" where
  "linalg_norm v = np_sqrt (np_sum (map (\<lambda>a. np_square (np_abs a)) v))"

text \<open>\<^verbatim>\<open>np.abs(v).sum()\<close> along the last axis: the Manhattan norm.\<close>

definition abs_sum :: "npfloat list \<Rightarrow> npfloat" where
  "abs_sum v = np_sum (map np_abs v)"

text \<open>
  \<^verbatim>\<open>np.linalg.norm(X[:, np.newaxis] - centroids, axis=2)\<close> and
  \<^verbatim>\<open>np.abs(X[:, np.newaxis] - medians).sum(axis=2)\<close>: row \<open>n\<close> of the result holds the
  distances of data row \<open>n\<close> to every reference row.
\<close>

definition euclid_distances :: "matrix \<Rightarrow> refset \<Rightarrow> npfloat list list" where
  "euclid_distances X cs = map (\<lambda>x. map (\<lambda>c. linalg_norm (row_sub x c)) cs) X"

definition manhattan_distances :: "matrix \<Rightarrow> refset \<Rightarrow> npfloat list list" where
  "manhattan_distances X cs = map (\<lambda>x. map (\<lambda>c. abs_sum (row_sub x c)) cs) X"

text \<open>
  \<^verbatim>\<open>np.argmin\<close> on one row, as numpy's loop runs it: it keeps the first minimum, moves on
  when an entry is not \<^verbatim>\<open>>=\<close> the current minimum, and stops at the first \<^verbatim>\<open>nan\<close>.
\<close>

fun argmin_loop :: "npfloat \<Rightarrow> nat \<Rightarrow> nat \<Rightarrow> npfloat list \<Rightarrow> nat" where
  "argmin_loop mp mi i [] = mi"
| "argmin_loop mp mi i (x # xs) =
     (if is_nan mp then mi
      else if \<not> np_ge x mp then argmin_loop x i (Suc i) xs
      else argmin_loop mp mi (Suc i) xs)"

definition np_argmin :: "npfloat list \<Rightarrow> nat" where
  "np_argmin ds = (case ds of [] \<Rightarrow> 0 | d # rest \<Rightarrow> argmin_loop d 0 1 rest)"

text \<open>
  \<^verbatim>\<open>np.argmin(distances, axis=1)\<close> on an \<open>N \<times> K\<close> array: with \<open>K = 0\<close> numpy raises
  \<^verbatim>\<open>ValueError: attempt to get argmin of an empty sequence\<close>.
\<close>

definition argmin_axis1 :: "nat \<Rightarrow> npfloat list list \<Rightarrow> error + nat list" where
  "argmin_axis1 K dists =
     (if K = 0 then Inl (ValueError ArgminEmptySequence) else Inr (map np_argmin dists))"

subsection \<open>Selecting rows, mean and median\<close>

text \<open>\<^verbatim>\<open>X[idx]\<close> for a list of row indices, and \<^verbatim>\<open>X[labels == i]\<close>.\<close>

definition take_rows :: "matrix \<Rightarrow> nat list \<Rightarrow> matrix" where
  "take_rows X idx = map (\<lambda>i. X ! i) idx"

definition cluster_rows :: "matrix \<Rightarrow> nat list \<Rightarrow> nat \<Rightarrow> matrix" where
  "cluster_rows X labels i = map fst (filter (\<lambda>(x, l). l = i) (zip X labels))"

definition ncols :: "matrix \<Rightarrow> nat" where
  "ncols X = (case X of [] \<Rightarrow> 0 | r # _ \<Rightarrow> length r)"

definition column :: "matrix \<Rightarrow> nat \<Rightarrow> real list" where
  "column rows j = map (\<lambda>r. r ! j) rows"

text \<open>
  \<^verbatim>\<open>rows.mean(axis=0)\<close> for a selection \<open>rows\<close> of a matrix with \<open>D\<close> columns: a row of
  \<open>D\<close> means, each \<^verbatim>\<open>nan\<close> when no row is selected.
\<close>

definition mean0 :: "nat \<Rightarrow> matrix \<Rightarrow> npfloat list" where
  "mean0 D rows =
     map (\<lambda>j. if rows = [] then NaN
               else Fin (sum_list (column rows j) / real (length rows))) [0..<D]"

text \<open>\<^verbatim>\<open>np.median\<close> of one column: the middle of the sorted values.\<close>

definition median :: "real list \<Rightarrow> npfloat" where
  "median xs =
     (let s = sort xs; n = length xs in
      if n = 0 then NaN
      else if odd n then Fin (s ! (n div 2))
      else Fin ((s ! (n div 2 - 1) + s ! (n div 2)) / 2))"

definition median0 :: "nat \<Rightarrow> matrix \<Rightarrow> npfloat list" where
  "median0 D rows = map (\<lambda>j. median (column rows j)) [0..<D]"

definition as_refset :: "matrix \<Rightarrow> refset" where
  "as_refset M = map (map Fin) M"

subsection \<open>The random source\<close>

text \<open>
  \<^verbatim>\<open>np.random\<close> is a process-wide generator. A call of \<open>fit\<close> is given the raw numbers the
  generator will produce during the call, as a list (zeros once it is used up); each draw
  turns the next raw number into an outcome numpy allows. Every outcome numpy can return
  comes from some list, and no other outcome does.
\<close>

type_synonym rng = "nat list"

definition next_raw :: "rng \<Rightarrow> nat \<times> rng" where
  "next_raw rs = (case rs of [] \<Rightarrow> (0, []) | r # rs' \<Rightarrow> (r, rs'))"

text \<open>Drawing \<open>k\<close> distinct elements of a pool, one after the other.\<close>

fun sample_pool :: "nat list \<Rightarrow> nat \<Rightarrow> rng \<Rightarrow> nat list \<times> rng" where
  "sample_pool pool 0 rs = ([], rs)"
| "sample_pool pool (Suc k) rs =
     (if pool = [] then ([], rs)
      else let (r, rs') = next_raw rs;
               j = r mod length pool;
               (rest, rs'') = sample_pool (take j pool @ drop (Suc j) pool) k rs'
           in (pool ! j # rest, rs''))"

text \<open>
  \<^verbatim>\<open>np.random.choice(m, k, replace=False)\<close>: \<open>k\<close> distinct indices below \<open>m\<close>. numpy
  raises \<^verbatim>\<open>ValueError\<close> for an empty population with a non-empty sample
  (\<^verbatim>\<open>a must be greater than 0 unless no samples are taken\<close>), for a sample larger than the
  population (\<^verbatim>\<open>Cannot take a larger sample than population when 'replace=False'\<close>) and for
  a negative size, in this order.
\<close>

definition choice_no_replace :: "nat \<Rightarrow> int \<Rightarrow> rng \<Rightarrow> error + nat list \<times> rng" where
  "choice_no_replace m k rs =
     (if m = 0 \<and> k \<noteq> 0 then Inl (ValueError EmptyPopulation)
      else if k > int m then Inl (ValueError SampleLargerThanPopulation)
      else if k < 0 then Inl (ValueError NegativeDimensions)
      else Inr (sample_pool [0..<m] (nat k) rs))"

text \<open>\<^verbatim>\<open>np.random.choice(m)\<close>: one index below \<open>m\<close>.\<close>

definition choice_single :: "nat \<Rightarrow> rng \<Rightarrow> error + nat \<times> rng" where
  "choice_single m rs =
     (if m = 0 then Inl (ValueError EmptyPopulation)
      else let (r, rs') = next_raw rs in Inr (r mod m, rs'))"

text \<open>
  \<^verbatim>\<open>np.random.choice(m, p=probs)\<close>: one index below \<open>m\<close>, drawn with the given probabilities,
  so an index of probability zero is never drawn. numpy raises \<^verbatim>\<open>ValueError\<close> when the
  probabilities contain \<^verbatim>\<open>nan\<close>, when one is negative, and when they do not sum to 1.
\<close>

datatype prob_error = ContainNaN | Negative | NotNormalised

fun the_fin :: "npfloat \<Rightarrow> real" where
  "the_fin (Fin a) = a"
| "the_fin NaN = 0"

definition check_probs :: "npfloat list \<Rightarrow> prob_error option" where
  "check_probs probs =
     (if list_ex is_nan probs then Some ContainNaN
      else if list_ex (\<lambda>p. the_fin p < 0) probs then Some Negative
      else if sum_list (map the_fin probs) \<noteq> 1 then Some NotNormalised
      else None)"

definition choice_weighted :: "nat \<Rightarrow> npfloat list \<Rightarrow> rng \<Rightarrow> error + nat \<times> rng" where
  "choice_weighted m probs rs =
     (if m = 0 then Inl (ValueError EmptyPopulation)
      else case check_probs probs of
        Some ContainNaN \<Rightarrow> Inl (ValueError ProbabilitiesNaN)
      | Some _ \<Rightarrow> Inl (ValueError ProbabilitiesInvalid)
      | None \<Rightarrow>
          let cands = filter (\<lambda>i. 0 < the_fin (probs ! i)) [0..<m];
              (r, rs') = next_raw rs
          in Inr (cands ! (r mod length cands), rs'))"

section \<open>The four estimators\<close>

text \<open>
  A method that mutates \<^verbatim>\<open>self\<close> returns its outcome together with the instance as the
  call leaves it, also when it raises. The outcome of a successful \<open>fit\<close> is the number of
  iterations of the assign/update loop that were executed (the loop's counter, kept for
  the statements about early stopping); the instance returned beside it is the
  \<^verbatim>\<open>self\<close> that \<open>fit\<close> returns. Progress printing (\<^verbatim>\<open>verbose\<close>) has no effect on the
  state and is left out. \<^verbatim>\<open>n_clusters\<close> is an integer, as its annotation says.
\<close>

text \<open>\<^verbatim>\<open>np.all(np.array(new) == old)\<close> for two reference sets of the same shape.\<close>

definition np_all_eq :: "refset \<Rightarrow> refset \<Rightarrow> bool" where
  "np_all_eq A B = list_all2 (list_all2 np_eq) A B"

subsection \<open>KMeansClustering\<close>

definition KMeans_init :: "int \<Rightarrow> int \<Rightarrow> bool \<Rightarrow> estimator" where
  "KMeans_init K mi v =
     \<lparr>n_clusters = K, batch_size = 0, max_iter = mi, verbose = v,
      X_train = None, fitted = False, centroids = None\<rparr>"

text \<open>\<^verbatim>\<open>[X[labels == i].mean(axis=0) for i in range(self.n_clusters)]\<close>\<close>

definition KMeans_update :: "matrix \<Rightarrow> int \<Rightarrow> nat list \<Rightarrow> refset" where
  "KMeans_update X K labels =
     map (\<lambda>i. mean0 (ncols X) (cluster_rows X labels i)) [0..<nat K]"

text \<open>
  The loop \<^verbatim>\<open>for i in range(self.max_iter)\<close>: \<open>n\<close> iterations are left, \<open>it\<close> have been
  executed, \<open>cs\<close> is \<^verbatim>\<open>self.centroids\<close>.
\<close>

fun KMeans_loop ::
  "matrix \<Rightarrow> int \<Rightarrow> nat \<Rightarrow> nat \<Rightarrow> refset \<Rightarrow> error \<times> refset + refset \<times> nat" where
  "KMeans_loop X K 0 it cs = Inr (cs, it)"
| "KMeans_loop X K (Suc n) it cs =
     (case argmin_axis1 (length cs) (euclid_distances X cs) of
        Inl e \<Rightarrow> Inl (e, cs)
      | Inr labels \<Rightarrow>
          let new_centroids = KMeans_update X K labels in
          if np_all_eq new_centroids cs then Inr (cs, Suc it)
          else KMeans_loop X K n (Suc it) new_centroids)"

definition KMeans_fit :: "estimator \<Rightarrow> matrix \<Rightarrow> rng \<Rightarrow> (error + nat) \<times> estimator" where
  "KMeans_fit s X rs =
     (case choice_no_replace (length X) (n_clusters s) rs of
        Inl e \<Rightarrow> (Inl e, s)
      | Inr (init_indices, rs') \<Rightarrow>
          let s1 = s\<lparr>centroids := Some (as_refset (take_rows X init_indices)),
                     X_train := Some X\<rparr>
          in case KMeans_loop X (n_clusters s) (nat (max_iter s)) 0
                    (as_refset (take_rows X init_indices)) of
               Inl (e, cs) \<Rightarrow> (Inl e, s1\<lparr>centroids := Some cs\<rparr>)
             | Inr (cs, it) \<Rightarrow> (Inr it, s1\<lparr>centroids := Some cs, fitted := True\<rparr>))"

definition KMeans_predict :: "estimator \<Rightarrow> matrix \<Rightarrow> error + nat list" where
  "KMeans_predict s X =
     (if \<not> fitted s then Inl (NotFittedError s)
      else case centroids s of
        None \<Rightarrow> Inl AttributeError
      | Some cs \<Rightarrow> argmin_axis1 (length cs) (euclid_distances X cs))"

text \<open>
  \<^verbatim>\<open>labels\<close> is \<^verbatim>\<open>self.predict(self._X)\<close>: the fitted check comes first, then \<^verbatim>\<open>None\<close>
  cannot be indexed.
\<close>

definition KMeans_labels :: "estimator \<Rightarrow> error + nat list" where
  "KMeans_labels s =
     (case X_train s of
        Some X \<Rightarrow> KMeans_predict s X
      | None \<Rightarrow> if \<not> fitted s then Inl (NotFittedError s) else Inl TypeError)"

text \<open>The evaluator is the caller's: \<^verbatim>\<open>metric.compute(X, X_pred)\<close>.\<close>

type_synonym evaluator = "matrix \<Rightarrow> nat list \<Rightarrow> error + real"

definition KMeans_score :: "estimator \<Rightarrow> matrix \<Rightarrow> evaluator \<Rightarrow> error + real" where
  "KMeans_score s X metric =
     (case KMeans_predict s X of Inl e \<Rightarrow> Inl e | Inr X_pred \<Rightarrow> metric X X_pred)"

definition set_params :: "int option \<Rightarrow> int option \<Rightarrow> estimator \<Rightarrow> estimator" where
  "set_params K mi s =
     (let s1 = (case K of None \<Rightarrow> s | Some k \<Rightarrow> s\<lparr>n_clusters := k\<rparr>)
      in case mi of None \<Rightarrow> s1 | Some m \<Rightarrow> s1\<lparr>max_iter := m\<rparr>)"

subsection \<open>KMeansClusteringPlus\<close>

definition KMeansPlus_init :: "int \<Rightarrow> int \<Rightarrow> bool \<Rightarrow> estimator" where
  "KMeansPlus_init K mi v =
     \<lparr>n_clusters = K, batch_size = 0, max_iter = mi, verbose = v,
      X_train = None, fitted = False, centroids = None\<rparr>"

text \<open>\<^verbatim>\<open>np.linalg.norm(x - c) ** 2\<close> for a data row and a seed, which is a data row too.\<close>

definition sq_dist :: "real list \<Rightarrow> real list \<Rightarrow> real" where
  "sq_dist x c = (sqrt (sum_list (map2 (\<lambda>a b. \<bar>a - b\<bar> ^ 2) x c))) ^ 2"

text \<open>\<^verbatim>\<open>distances / distances.sum()\<close>: zero over zero is \<^verbatim>\<open>nan\<close>. The distances are not
  negative, so their sum is zero only when all of them are.\<close>

definition np_div :: "real \<Rightarrow> real \<Rightarrow> npfloat" where
  "np_div a b = (if b = 0 then NaN else Fin (a / b))"

text \<open>\<^verbatim>\<open>[min([np.linalg.norm(x - c) ** 2 for c in self.centroids]) for x in X]\<close>\<close>

definition seed_distances :: "matrix \<Rightarrow> matrix \<Rightarrow> real list" where
  "seed_distances X seeds = map (\<lambda>x. Min (set (map (sq_dist x) seeds))) X"

definition seed_probs :: "matrix \<Rightarrow> matrix \<Rightarrow> npfloat list" where
  "seed_probs X seeds =
     (let distances = seed_distances X seeds
      in map (\<lambda>d. np_div d (sum_list distances)) distances)"

text \<open>
  The loop of \<^verbatim>\<open>_initialize_centroids\<close>, with \<open>k\<close> seeds left to draw. When a draw raises,
  \<^verbatim>\<open>self.centroids\<close> holds the seeds drawn so far.
\<close>

fun seed_loop :: "matrix \<Rightarrow> nat \<Rightarrow> matrix \<Rightarrow> rng \<Rightarrow> error \<times> matrix + matrix \<times> rng" where
  "seed_loop X 0 seeds rs = Inr (seeds, rs)"
| "seed_loop X (Suc k) seeds rs =
     (case choice_weighted (length X) (seed_probs X seeds) rs of
        Inl e \<Rightarrow> Inl (e, seeds)
      | Inr (next_centroid, rs') \<Rightarrow> seed_loop X k (seeds @ [X ! next_centroid]) rs')"

definition initialize_centroids ::
  "int \<Rightarrow> matrix \<Rightarrow> rng \<Rightarrow> error \<times> matrix option + matrix \<times> rng" where
  "initialize_centroids K X rs =
     (case choice_single (length X) rs of
        Inl e \<Rightarrow> Inl (e, None)
      | Inr (first, rs') \<Rightarrow>
          (case seed_loop X (nat (K - 1)) [X ! first] rs' of
             Inl (e, seeds) \<Rightarrow> Inl (e, Some seeds)
           | Inr r \<Rightarrow> Inr r))"

text \<open>
  The update of K-Means++, in place, for \<^verbatim>\<open>i in range(self.n_clusters)\<close>: an empty cluster
  is skipped (\<^verbatim>\<open>continue\<close>).
\<close>

definition KMeansPlus_update :: "matrix \<Rightarrow> int \<Rightarrow> nat list \<Rightarrow> refset \<Rightarrow> refset" where
  "KMeansPlus_update X K labels cs =
     fold (\<lambda>i cs. let cluster_points = cluster_rows X labels i in
                   if length cluster_points = 0 then cs
                   else cs[i := mean0 (ncols X) cluster_points])
          [0..<nat K] cs"

text \<open>
  The loop \<^verbatim>\<open>for _ in range(self.max_iter)\<close>. Its \<^verbatim>\<open>verbose\<close> test reads the variable
  \<^verbatim>\<open>i\<close> of the update loop, which is unbound when that loop had nothing to run through.
\<close>

fun KMeansPlus_loop ::
  "matrix \<Rightarrow> int \<Rightarrow> bool \<Rightarrow> nat \<Rightarrow> nat \<Rightarrow> refset \<Rightarrow> error \<times> refset + refset \<times> nat" where
  "KMeansPlus_loop X K v 0 it cs = Inr (cs, it)"
| "KMeansPlus_loop X K v (Suc n) it cs =
     (case argmin_axis1 (length cs) (euclid_distances X cs) of
        Inl e \<Rightarrow> Inl (e, cs)
      | Inr labels \<Rightarrow>
          let cs' = KMeansPlus_update X K labels cs in
          if v \<and> K \<le> 0 then Inl (NameError, cs')
          else KMeansPlus_loop X K v n (Suc it) cs')"

definition KMeansPlus_fit :: "estimator \<Rightarrow> matrix \<Rightarrow> rng \<Rightarrow> (error + nat) \<times> estimator" where
  "KMeansPlus_fit s X rs =
     (let s1 = s\<lparr>X_train := Some X\<rparr> in
      case initialize_centroids (n_clusters s) X rs of
        Inl (e, None) \<Rightarrow> (Inl e, s1)
      | Inl (e, Some seeds) \<Rightarrow> (Inl e, s1\<lparr>centroids := Some (as_refset seeds)\<rparr>)
      | Inr (seeds, rs') \<Rightarrow>
          (case KMeansPlus_loop X (n_clusters s) (verbose s) (nat (max_iter s)) 0
                  (as_refset seeds) of
             Inl (e, cs) \<Rightarrow> (Inl e, s1\<lparr>centroids := Some cs\<rparr>)
           | Inr (cs, it) \<Rightarrow> (Inr it, s1\<lparr>centroids := Some cs, fitted := True\<rparr>)))"

definition KMeansPlus_predict :: "estimator \<Rightarrow> matrix \<Rightarrow> error + nat list" where
  "KMeansPlus_predict s X =
     (if \<not> fitted s then Inl (NotFittedError s)
      else case centroids s of
        None \<Rightarrow> Inl AttributeError
      | Some cs \<Rightarrow> argmin_axis1 (length cs) (euclid_distances X cs))"

definition KMeansPlus_labels :: "estimator \<Rightarrow> error + nat list" where
  "KMeansPlus_labels s =
     (case X_train s of
        Some X \<Rightarrow> KMeansPlus_predict s X
      | None \<Rightarrow> if \<not> fitted s then Inl (NotFittedError s) else Inl TypeError)"

definition KMeansPlus_score :: "estimator \<Rightarrow> matrix \<Rightarrow> evaluator \<Rightarrow> error + real" where
  "KMeansPlus_score s X metric =
     (case KMeansPlus_predict s X of Inl e \<Rightarrow> Inl e | Inr X_pred \<Rightarrow> metric X X_pred)"

subsection \<open>KMediansClustering\<close>

definition KMedians_init :: "int \<Rightarrow> int \<Rightarrow> bool \<Rightarrow> estimator" where
  "KMedians_init K mi v =
     \<lparr>n_clusters = K, batch_size = 0, max_iter = mi, verbose = v,
      X_train = None, fitted = False, centroids = None\<rparr>"

text \<open>\<^verbatim>\<open>[np.median(X[labels == i], axis=0) for i in range(self.n_clusters)]\<close>\<close>

definition KMedians_update :: "matrix \<Rightarrow> int \<Rightarrow> nat list \<Rightarrow> refset" where
  "KMedians_update X K labels =
     map (\<lambda>i. median0 (ncols X) (cluster_rows X labels i)) [0..<nat K]"

fun KMedians_loop ::
  "matrix \<Rightarrow> int \<Rightarrow> nat \<Rightarrow> nat \<Rightarrow> refset \<Rightarrow> error \<times> refset + refset \<times> nat" where
  "KMedians_loop X K 0 it ms = Inr (ms, it)"
| "KMedians_loop X K (Suc n) it ms =
     (case argmin_axis1 (length ms) (manhattan_distances X ms) of
        Inl e \<Rightarrow> Inl (e, ms)
      | Inr labels \<Rightarrow>
          let new_medians = KMedians_update X K labels in
          if np_all_eq new_medians ms then Inr (ms, Suc it)
          else KMedians_loop X K n (Suc it) new_medians)"

definition KMedians_fit :: "estimator \<Rightarrow> matrix \<Rightarrow> rng \<Rightarrow> (error + nat) \<times> estimator" where
  "KMedians_fit s X rs =
     (let s1 = s\<lparr>X_train := Some X\<rparr> in
      case choice_no_replace (length X) (n_clusters s) rs of
        Inl e \<Rightarrow> (Inl e, s1)
      | Inr (idx, rs') \<Rightarrow>
          (case KMedians_loop X (n_clusters s) (nat (max_iter s)) 0
                  (as_refset (take_rows X idx)) of
             Inl (e, ms) \<Rightarrow> (Inl e, s1\<lparr>centroids := Some ms\<rparr>)
           | Inr (ms, it) \<Rightarrow> (Inr it, s1\<lparr>centroids := Some ms, fitted := True\<rparr>)))"

definition KMedians_predict :: "estimator \<Rightarrow> matrix \<Rightarrow> error + nat list" where
  "KMedians_predict s X =
     (if \<not> fitted s then Inl (NotFittedError s)
      else case centroids s of
        None \<Rightarrow> Inl AttributeError
      | Some ms \<Rightarrow> argmin_axis1 (length ms) (manhattan_distances X ms))"

definition KMedians_labels :: "estimator \<Rightarrow> error + nat list" where
  "KMedians_labels s =
     (case X_train s of
        Some X \<Rightarrow> KMedians_predict s X
      | None \<Rightarrow> if \<not> fitted s then Inl (NotFittedError s) else Inl TypeError)"

definition KMedians_score :: "estimator \<Rightarrow> matrix \<Rightarrow> evaluator \<Rightarrow> error + real" where
  "KMedians_score s X metric =
     (case KMedians_predict s X of Inl e \<Rightarrow> Inl e | Inr X_pred \<Rightarrow> metric X X_pred)"

subsection \<open>MiniBatchKMeansClustering\<close>

definition MiniBatch_init :: "int \<Rightarrow> int \<Rightarrow> int \<Rightarrow> estimator" where
  "MiniBatch_init K b mi =
     \<lparr>n_clusters = K, batch_size = b, max_iter = mi, verbose = False,
      X_train = None, fitted = False, centroids = None\<rparr>"

text \<open>
  The update of mini-batch K-Means, in place, for \<^verbatim>\<open>i in range(self.n_clusters)\<close>: a
  centroid is overwritten only \<^verbatim>\<open>if len(cluster_points) > 0\<close>.
\<close>

definition MiniBatch_update :: "matrix \<Rightarrow> int \<Rightarrow> nat list \<Rightarrow> refset \<Rightarrow> refset" where
  "MiniBatch_update batch K closest_cluster_idx cs =
     fold (\<lambda>i cs. let cluster_points = cluster_rows batch closest_cluster_idx i in
                   if length cluster_points > 0
                   then cs[i := mean0 (ncols batch) cluster_points]
                   else cs)
          [0..<nat K] cs"

text \<open>The loop \<^verbatim>\<open>for _ in range(self.max_iter)\<close>: every iteration draws its batch.\<close>

fun MiniBatch_loop ::
  "matrix \<Rightarrow> int \<Rightarrow> int \<Rightarrow> nat \<Rightarrow> nat \<Rightarrow> rng \<Rightarrow> refset \<Rightarrow> error \<times> refset + refset \<times> nat"
  where
  "MiniBatch_loop X K b 0 it rs cs = Inr (cs, it)"
| "MiniBatch_loop X K b (Suc n) it rs cs =
     (case choice_no_replace (length X) b rs of
        Inl e \<Rightarrow> Inl (e, cs)
      | Inr (batch_idx, rs') \<Rightarrow>
          let batch = take_rows X batch_idx in
          (case argmin_axis1 (length cs) (euclid_distances batch cs) of
             Inl e \<Rightarrow> Inl (e, cs)
           | Inr closest_cluster_idx \<Rightarrow>
               MiniBatch_loop X K b n (Suc it) rs'
                 (MiniBatch_update batch K closest_cluster_idx cs)))"

definition MiniBatch_fit :: "estimator \<Rightarrow> matrix \<Rightarrow> rng \<Rightarrow> (error + nat) \<times> estimator" where
  "MiniBatch_fit s X rs =
     (let s1 = s\<lparr>X_train := Some X\<rparr> in
      case choice_no_replace (length X) (n_clusters s) rs of
        Inl e \<Rightarrow> (Inl e, s1)
      | Inr (rand_idx, rs') \<Rightarrow>
          (case MiniBatch_loop X (n_clusters s) (batch_size s) (nat (max_iter s)) 0 rs'
                  (as_refset (take_rows X rand_idx)) of
             Inl (e, cs) \<Rightarrow> (Inl e, s1\<lparr>centroids := Some cs\<rparr>)
           | Inr (cs, it) \<Rightarrow> (Inr it, s1\<lparr>centroids := Some cs, fitted := True\<rparr>)))"

definition MiniBatch_predict :: "estimator \<Rightarrow> matrix \<Rightarrow> error + nat list" where
  "MiniBatch_predict s X =
     (if \<not> fitted s then Inl (NotFittedError s)
      else case centroids s of
        None \<Rightarrow> Inl TypeError
      | Some cs \<Rightarrow> argmin_axis1 (length cs) (euclid_distances X cs))"

definition MiniBatch_labels :: "estimator \<Rightarrow> error + nat list" where
  "MiniBatch_labels s =
     (case X_train s of
        Some X \<Rightarrow> MiniBatch_predict s X
      | None \<Rightarrow> if \<not> fitted s then Inl (NotFittedError s) else Inl TypeError)"

definition MiniBatch_score :: "estimator \<Rightarrow> matrix \<Rightarrow> evaluator \<Rightarrow> error + real" where
  "MiniBatch_score s X metric =
     (case MiniBatch_predict s X of Inl e \<Rightarrow> Inl e | Inr X_pred \<Rightarrow> metric X X_pred)"

definition MiniBatch_set_params ::
  "int option \<Rightarrow> int option \<Rightarrow> int option \<Rightarrow> estimator \<Rightarrow> estimator" where
  "MiniBatch_set_params K b mi s =
     (let s1 = (case K of None \<Rightarrow> s | Some k \<Rightarrow> s\<lparr>n_clusters := k\<rparr>);
          s2 = (case b of None \<Rightarrow> s1 | Some b' \<Rightarrow> s1\<lparr>batch_size := b'\<rparr>)
      in case mi of None \<Rightarrow> s2 | Some m \<Rightarrow> s2\<lparr>max_iter := m\<rparr>)"

subsection \<open>One iteration, and iterating\<close>

text \<open>
  What one iteration of each full-data loop computes from the reference set it starts
  with: the assignment followed by the update.
\<close>

definition KMeans_iteration :: "matrix \<Rightarrow> int \<Rightarrow> refset \<Rightarrow> error + refset" where
  "KMeans_iteration X K cs =
     (case argmin_axis1 (length cs) (euclid_distances X cs) of
        Inl e \<Rightarrow> Inl e
      | Inr labels \<Rightarrow> Inr (KMeans_update X K labels))"

definition KMedians_iteration :: "matrix \<Rightarrow> int \<Rightarrow> refset \<Rightarrow> error + refset" where
  "KMedians_iteration X K ms =
     (case argmin_axis1 (length ms) (manhattan_distances X ms) of
        Inl e \<Rightarrow> Inl e
      | Inr labels \<Rightarrow> Inr (KMedians_update X K labels))"

definition KMeansPlus_iteration :: "matrix \<Rightarrow> int \<Rightarrow> refset \<Rightarrow> error + refset" where
  "KMeansPlus_iteration X K cs =
     (case argmin_axis1 (length cs) (euclid_distances X cs) of
        Inl e \<Rightarrow> Inl e
      | Inr labels \<Rightarrow> Inr (KMeansPlus_update X K labels cs))"

text \<open>The reference set after \<open>j\<close> rounds of assignment and update, with no early stop.\<close>

fun iterates :: "(refset \<Rightarrow> error + refset) \<Rightarrow> nat \<Rightarrow> refset \<Rightarrow> error + refset" where
  "iterates step 0 cs = Inr cs"
| "iterates step (Suc j) cs =
     (case step cs of Inl e \<Rightarrow> Inl e | Inr cs' \<Rightarrow> iterates step j cs')"

text \<open>Round \<open>i\<close> (counted from 0) reproduces the reference set it starts with.\<close>

definition fixed_round :: "(refset \<Rightarrow> error + refset) \<Rightarrow> refset \<Rightarrow> nat \<Rightarrow> bool" where
  "fixed_round step c0 i =
     (case iterates step i c0 of
        Inl e \<Rightarrow> False
      | Inr c \<Rightarrow> (case step c of Inl e \<Rightarrow> False | Inr c' \<Rightarrow> np_all_eq c' c))"

subsection \<open>The four variants side by side\<close>

datatype variant =
  KMeansClustering | KMeansClusteringPlus | KMediansClustering | MiniBatchKMeansClustering

fun fit :: "variant \<Rightarrow> estimator \<Rightarrow> matrix \<Rightarrow> rng \<Rightarrow> (error + nat) \<times> estimator" where
  "fit KMeansClustering = KMeans_fit"
| "fit KMeansClusteringPlus = KMeansPlus_fit"
| "fit KMediansClustering = KMedians_fit"
| "fit MiniBatchKMeansClustering = MiniBatch_fit"

fun predict :: "variant \<Rightarrow> estimator \<Rightarrow> matrix \<Rightarrow> error + nat list" where
  "predict KMeansClustering = KMeans_predict"
| "predict KMeansClusteringPlus = KMeansPlus_predict"
| "predict KMediansClustering = KMedians_predict"
| "predict MiniBatchKMeansClustering = MiniBatch_predict"

fun labels :: "variant \<Rightarrow> estimator \<Rightarrow> error + nat list" where
  "labels KMeansClustering = KMeans_labels"
| "labels KMeansClusteringPlus = KMeansPlus_labels"
| "labels KMediansClustering = KMedians_labels"
| "labels MiniBatchKMeansClustering = MiniBatch_labels"

fun score :: "variant \<Rightarrow> estimator \<Rightarrow> matrix \<Rightarrow> evaluator \<Rightarrow> error + real" where
  "score KMeansClustering = KMeans_score"
| "score KMeansClusteringPlus = KMeansPlus_score"
| "score KMediansClustering = KMedians_score"
| "score MiniBatchKMeansClustering = MiniBatch_score"

section \<open>Notions the statements need\<close>

text \<open>
  The instances on which \<open>fit\<close> has not yet completed successfully: a fresh instance, and
  what \<open>set_params\<close> and a \<open>fit\<close> that raised make of such an instance.
\<close>

inductive never_fitted :: "variant \<Rightarrow> estimator \<Rightarrow> bool" where
  new_KMeans: "never_fitted KMeansClustering (KMeans_init K mi vb)"
| new_KMeansPlus: "never_fitted KMeansClusteringPlus (KMeansPlus_init K mi vb)"
| new_KMedians: "never_fitted KMediansClustering (KMedians_init K mi vb)"
| new_MiniBatch: "never_fitted MiniBatchKMeansClustering (MiniBatch_init K b mi)"
| after_set_params:
    "never_fitted v s \<Longrightarrow> v \<noteq> MiniBatchKMeansClustering \<Longrightarrow>
     never_fitted v (set_params K' mi' s)"
| after_MiniBatch_set_params:
    "never_fitted MiniBatchKMeansClustering s \<Longrightarrow>
     never_fitted MiniBatchKMeansClustering (MiniBatch_set_params K' b' mi' s)"
| after_failed_fit:
    "never_fitted v s \<Longrightarrow> fit v s X rs = (Inl e, s') \<Longrightarrow> never_fitted v s'"

text \<open>
  A label names a nearest reference row, given the distances of a point to all reference
  rows: its own distance is a number, and no distance that is a number is smaller.
\<close>

definition nearest :: "npfloat list \<Rightarrow> nat \<Rightarrow> bool" where
  "nearest ds l =
     (l < length ds \<and>
      (case ds ! l of
         NaN \<Rightarrow> False
       | Fin r \<Rightarrow> list_all (\<lambda>d. case d of NaN \<Rightarrow> True | Fin q \<Rightarrow> r \<le> q) ds))"

text \<open>The distances \<open>predict\<close> of a variant takes the argmin of.\<close>

definition distances :: "variant \<Rightarrow> matrix \<Rightarrow> refset \<Rightarrow> npfloat list list" where
  "distances v X cs =
     (if v = KMediansClustering then manhattan_distances X cs else euclid_distances X cs)"

section \<open>A failing fit and the fitted flag\<close>

text \<open>\<open>fit\<close> sets the fitted flag in its last statement only, and never the parameters.\<close>

lemma KMeans_fit_fails:
  "KMeans_fit s X rs = (Inl e, s') \<Longrightarrow>
     fitted s' = fitted s \<and> n_clusters s' = n_clusters s \<and> max_iter s' = max_iter s
     \<and> batch_size s' = batch_size s \<and> verbose s' = verbose s"
  by (auto simp: KMeans_fit_def Let_def split: sum.splits prod.splits)

lemma KMeansPlus_fit_fails:
  "KMeansPlus_fit s X rs = (Inl e, s') \<Longrightarrow>
     fitted s' = fitted s \<and> n_clusters s' = n_clusters s \<and> max_iter s' = max_iter s
     \<and> batch_size s' = batch_size s \<and> verbose s' = verbose s \<and> X_train s' = Some X"
  by (auto simp: KMeansPlus_fit_def Let_def split: sum.splits prod.splits option.splits)

lemma KMedians_fit_fails:
  "KMedians_fit s X rs = (Inl e, s') \<Longrightarrow>
     fitted s' = fitted s \<and> n_clusters s' = n_clusters s \<and> max_iter s' = max_iter s
     \<and> batch_size s' = batch_size s \<and> verbose s' = verbose s \<and> X_train s' = Some X"
  by (auto simp: KMedians_fit_def Let_def split: sum.splits prod.splits)

lemma MiniBatch_fit_fails:
  "MiniBatch_fit s X rs = (Inl e, s') \<Longrightarrow>
     fitted s' = fitted s \<and> n_clusters s' = n_clusters s \<and> max_iter s' = max_iter s
     \<and> batch_size s' = batch_size s \<and> verbose s' = verbose s \<and> X_train s' = Some X"
  by (auto simp: MiniBatch_fit_def Let_def split: sum.splits prod.splits)

lemma fit_fails_fitted:
  "fit v s X rs = (Inl e, s') \<Longrightarrow> fitted s' = fitted s"
  by (cases v) (auto dest: KMeans_fit_fails KMeansPlus_fit_fails KMedians_fit_fails MiniBatch_fit_fails)

section \<open>The fitted gate\<close>

lemma never_fitted_not_fitted: "never_fitted v s \<Longrightarrow> \<not> fitted s"
proof (induction rule: never_fitted.induct)
  case (after_failed_fit v s X rs e s')
  then show ?case using fit_fails_fitted by blast
qed (auto simp: KMeans_init_def KMeansPlus_init_def KMedians_init_def MiniBatch_init_def
       set_params_def MiniBatch_set_params_def Let_def split: option.splits)

lemma not_fitted_raises:
  "\<not> fitted s \<Longrightarrow>
     predict v s X = Inl (NotFittedError s) \<and> labels v s = Inl (NotFittedError s)
     \<and> score v s X metric = Inl (NotFittedError s)"
  by (cases v)
     (auto simp: KMeans_predict_def KMeans_labels_def KMeans_score_def
                 KMeansPlus_predict_def KMeansPlus_labels_def KMeansPlus_score_def
                 KMedians_predict_def KMedians_labels_def KMedians_score_def
                 MiniBatch_predict_def MiniBatch_labels_def MiniBatch_score_def
           split: option.splits)

text \<open>
  Claim C1. For each of the four variants, on an instance on which \<open>fit\<close> has not yet
  completed successfully, \<open>predict\<close>, \<open>labels\<close> and \<open>score\<close> raise the not-fitted error
  carrying that very instance, and so return no value.
\<close>

theorem not_fitted_gate:
  assumes "never_fitted v s"
  shows "predict v s X = Inl (NotFittedError s)
       \<and> labels v s = Inl (NotFittedError s)
       \<and> score v s X metric = Inl (NotFittedError s)"
  using never_fitted_not_fitted [OF assms] by (rule not_fitted_raises)

lemma KMedians_fit_too_few_rows:
  "KMedians_fit (KMedians_init 2 100 False) [[0]] [] =
     (Inl (ValueError SampleLargerThanPopulation),
      (KMedians_init 2 100 False)\<lparr>X_train := Some [[0]]\<rparr>)"
  by (simp add: KMedians_fit_def KMedians_init_def choice_no_replace_def)

theorem not_fitted_gate_witness:
  "never_fitted KMediansClustering ((KMedians_init 2 100 False)\<lparr>X_train := Some [[0]]\<rparr>)
   \<and> predict KMediansClustering ((KMedians_init 2 100 False)\<lparr>X_train := Some [[0]]\<rparr>) [[1]]
       = Inl (NotFittedError ((KMedians_init 2 100 False)\<lparr>X_train := Some [[0]]\<rparr>))
   \<and> labels KMediansClustering ((KMedians_init 2 100 False)\<lparr>X_train := Some [[0]]\<rparr>)
       = Inl (NotFittedError ((KMedians_init 2 100 False)\<lparr>X_train := Some [[0]]\<rparr>))
   \<and> score KMediansClustering ((KMedians_init 2 100 False)\<lparr>X_train := Some [[0]]\<rparr>) [[1]]
         (\<lambda>X p. Inr 0)
       = Inl (NotFittedError ((KMedians_init 2 100 False)\<lparr>X_train := Some [[0]]\<rparr>))"
proof -
  have nf: "never_fitted KMediansClustering
              ((KMedians_init 2 100 False)\<lparr>X_train := Some [[0]]\<rparr>)"
    by (rule never_fitted.after_failed_fit
          [where s = "KMedians_init 2 100 False" and X = "[[0]]" and rs = "[]"
             and e = "ValueError SampleLargerThanPopulation"])
       (simp_all add: never_fitted.new_KMedians KMedians_fit_too_few_rows)
  show ?thesis
    using nf not_fitted_gate [OF nf, of "[[1]]" "\<lambda>X p. Inr 0"] by simp
qed

section \<open>Running the loops on numerals\<close>

lemma sample_pool_numeral:
  "sample_pool pool (numeral k) rs = sample_pool pool (Suc (pred_numeral k)) rs"
  by (simp add: numeral_eq_Suc)

lemma KMeans_loop_numeral:
  "KMeans_loop X K (numeral k) it cs = KMeans_loop X K (Suc (pred_numeral k)) it cs"
  by (simp add: numeral_eq_Suc)

lemma KMedians_loop_numeral:
  "KMedians_loop X K (numeral k) it cs = KMedians_loop X K (Suc (pred_numeral k)) it cs"
  by (simp add: numeral_eq_Suc)

lemma KMeansPlus_loop_numeral:
  "KMeansPlus_loop X K v (numeral k) it cs = KMeansPlus_loop X K v (Suc (pred_numeral k)) it cs"
  by (simp add: numeral_eq_Suc)

lemma MiniBatch_loop_numeral:
  "MiniBatch_loop X K b (numeral k) it rs cs =
     MiniBatch_loop X K b (Suc (pred_numeral k)) it rs cs"
  by (simp add: numeral_eq_Suc)

lemma seed_loop_numeral:
  "seed_loop X (numeral k) seeds rs = seed_loop X (Suc (pred_numeral k)) seeds rs"
  by (simp add: numeral_eq_Suc)

lemma iterates_numeral:
  "iterates step (numeral k) cs = iterates step (Suc (pred_numeral k)) cs"
  by (simp add: numeral_eq_Suc)

lemmas run_numeral = sample_pool_numeral KMeans_loop_numeral KMedians_loop_numeral
  KMeansPlus_loop_numeral MiniBatch_loop_numeral seed_loop_numeral iterates_numeral

section \<open>Sampling without replacement\<close>

text \<open>A sample of \<open>k\<close> indices has \<open>k\<close> distinct entries, all of them row numbers.\<close>

lemma sample_pool_valid:
  "k \<le> length pool \<Longrightarrow> distinct pool \<Longrightarrow>
     length (fst (sample_pool pool k rs)) = k
     \<and> distinct (fst (sample_pool pool k rs))
     \<and> set (fst (sample_pool pool k rs)) \<subseteq> set pool"
proof (induction k arbitrary: pool rs)
  case 0
  then show ?case by simp
next
  case (Suc k)
  obtain r rs' where nr: "next_raw rs = (r, rs')" by (cases "next_raw rs")
  define j where "j = r mod length pool"
  define pool' where "pool' = take j pool @ drop (Suc j) pool"
  from Suc.prems have ne: "pool \<noteq> []" by auto
  then have j: "j < length pool" by (simp add: j_def)
  have split: "pool = take j pool @ pool ! j # drop (Suc j) pool"
    using j by (rule id_take_nth_drop)
  have d: "distinct (take j pool @ pool ! j # drop (Suc j) pool)"
    using Suc.prems(2) split by simp
  have len: "length pool' = length pool - 1" using j by (simp add: pool'_def)
  have dp: "distinct pool'" using d by (simp add: pool'_def)
  have notin: "pool ! j \<notin> set pool'" using d by (auto simp: pool'_def)
  have sub: "set pool' \<subseteq> set pool"
    by (auto simp: pool'_def dest: in_set_takeD in_set_dropD)
  have kl: "k \<le> length pool'" using Suc.prems(1) len by simp
  note IH = Suc.IH [OF kl dp, of rs']
  obtain rest rs'' where sp: "sample_pool pool' k rs' = (rest, rs'')"
    by (cases "sample_pool pool' k rs'")
  have res: "fst (sample_pool pool (Suc k) rs) = pool ! j # rest"
    using ne nr sp by (simp add: j_def pool'_def Let_def)
  have "pool ! j \<in> set pool" using j by simp
  then show ?case using IH sp res notin sub by auto
qed

lemma choice_no_replace_ok:
  assumes "0 \<le> k" and "k \<le> int m"
  shows "\<exists>idx rs'. choice_no_replace m k rs = Inr (idx, rs') \<and> length idx = nat k
           \<and> distinct idx \<and> (\<forall>i\<in>set idx. i < m)"
proof -
  have "nat k \<le> length [0..<m]" using assms by simp
  from sample_pool_valid [OF this, of rs]
  have v: "length (fst (sample_pool [0..<m] (nat k) rs)) = nat k
         \<and> distinct (fst (sample_pool [0..<m] (nat k) rs))
         \<and> set (fst (sample_pool [0..<m] (nat k) rs)) \<subseteq> set [0..<m]" by simp
  have "choice_no_replace m k rs = Inr (sample_pool [0..<m] (nat k) rs)"
    using assms by (auto simp: choice_no_replace_def)
  then show ?thesis using v by (cases "sample_pool [0..<m] (nat k) rs") auto
qed

section \<open>The in-place updates of K-Means++ and mini-batch K-Means\<close>

lemma fold_skip_update_length:
  "length (fold (\<lambda>i cs. if skip i then cs else cs[i := g i]) [0..<n] cs) = length cs"
  by (induction n) simp_all

lemma fold_skip_update_nth:
  "i < length cs \<Longrightarrow>
   fold (\<lambda>i cs. if skip i then cs else cs[i := g i]) [0..<n] cs ! i =
     (if i < n \<and> \<not> skip i then g i else cs ! i)"
proof (induction n)
  case 0
  then show ?case by simp
next
  case (Suc n)
  let ?r = "fold (\<lambda>i cs. if skip i then cs else cs[i := g i]) [0..<n] cs"
  have len: "length ?r = length cs" by (rule fold_skip_update_length)
  have step: "fold (\<lambda>i cs. if skip i then cs else cs[i := g i]) [0..<Suc n] cs =
        (if skip n then ?r else ?r[n := g n])" by simp
  show ?case
  proof (cases "i = n")
    case True
    then show ?thesis using Suc len unfolding step by simp
  next
    case False
    then show ?thesis using Suc len unfolding step by (simp add: less_Suc_eq)
  qed
qed

lemma KMeansPlus_update_eq:
  "KMeansPlus_update X K ls cs =
     fold (\<lambda>i cs. if cluster_rows X ls i = [] then cs
                   else cs[i := mean0 (ncols X) (cluster_rows X ls i)]) [0..<nat K] cs"
  by (simp add: KMeansPlus_update_def Let_def)

lemma MiniBatch_update_eq:
  "MiniBatch_update batch K closest cs =
     fold (\<lambda>i cs. if cluster_rows batch closest i = [] then cs
                   else cs[i := mean0 (ncols batch) (cluster_rows batch closest i)]) [0..<nat K] cs"
proof -
  have "(\<lambda>i cs. let cluster_points = cluster_rows batch closest i in
                   if length cluster_points > 0
                   then cs[i := mean0 (ncols batch) cluster_points]
                   else cs) =
        (\<lambda>i cs. if cluster_rows batch closest i = [] then cs
                   else cs[i := mean0 (ncols batch) (cluster_rows batch closest i)])"
    by (auto simp: Let_def fun_eq_iff)
  then show ?thesis by (simp add: MiniBatch_update_def)
qed

lemma KMeansPlus_update_length [simp]:
  "length (KMeansPlus_update X K ls cs) = length cs"
  by (simp add: KMeansPlus_update_eq fold_skip_update_length)

lemma MiniBatch_update_length [simp]:
  "length (MiniBatch_update batch K closest cs) = length cs"
  by (simp add: MiniBatch_update_eq fold_skip_update_length)

lemma KMeansPlus_update_nth:
  "i < length cs \<Longrightarrow>
   KMeansPlus_update X K ls cs ! i =
     (if i < nat K \<and> cluster_rows X ls i \<noteq> []
      then mean0 (ncols X) (cluster_rows X ls i) else cs ! i)"
  unfolding KMeansPlus_update_eq
  by (rule fold_skip_update_nth
        [where skip = "\<lambda>i. cluster_rows X ls i = []"
           and g = "\<lambda>i. mean0 (ncols X) (cluster_rows X ls i)"])

lemma MiniBatch_update_nth:
  "i < length cs \<Longrightarrow>
   MiniBatch_update batch K closest cs ! i =
     (if i < nat K \<and> cluster_rows batch closest i \<noteq> []
      then mean0 (ncols batch) (cluster_rows batch closest i) else cs ! i)"
  unfolding MiniBatch_update_eq
  by (rule fold_skip_update_nth
        [where skip = "\<lambda>i. cluster_rows batch closest i = []"
           and g = "\<lambda>i. mean0 (ncols batch) (cluster_rows batch closest i)"])



section \<open>Mini-batch K-Means runs its whole budget\<close>

lemma MiniBatch_loop_count:
  "MiniBatch_loop X K b n it rs cs = Inr (cs', it') \<Longrightarrow> it' = it + n"
proof (induction n arbitrary: it rs cs)
  case 0
  then show ?case by simp
next
  case (Suc n)
  from Suc.prems obtain rs' cs1 where "MiniBatch_loop X K b n (Suc it) rs' cs1 = Inr (cs', it')"
    by (auto simp: Let_def split: sum.splits prod.splits)
  from Suc.IH [OF this] show ?case by simp
qed

lemma MiniBatch_loop_succeeds:
  assumes "0 \<le> b" and "b \<le> int (length X)"
  shows "cs \<noteq> [] \<Longrightarrow>
         \<exists>cs'. MiniBatch_loop X K b n it rs cs = Inr (cs', it + n) \<and> length cs' = length cs"
proof (induction n arbitrary: it rs cs)
  case 0
  then show ?case by simp
next
  case (Suc n)
  from choice_no_replace_ok [OF assms, of rs]
  obtain idx rs' where c: "choice_no_replace (length X) b rs = Inr (idx, rs')" by blast
  let ?batch = "take_rows X idx"
  let ?lab = "map np_argmin (euclid_distances ?batch cs)"
  have a: "argmin_axis1 (length cs) (euclid_distances ?batch cs) = Inr ?lab"
    using Suc.prems by (simp add: argmin_axis1_def)
  let ?cs1 = "MiniBatch_update ?batch K ?lab cs"
  have ne: "?cs1 \<noteq> []" using Suc.prems by (metis MiniBatch_update_length length_0_conv)
  from Suc.IH [OF ne, of "Suc it" rs']
  obtain cs' where "MiniBatch_loop X K b n (Suc it) rs' ?cs1 = Inr (cs', Suc it + n)"
    and "length cs' = length ?cs1" by blast
  then show ?case using c a by (simp add: Let_def)
qed


lemmas minibatch_eval = MiniBatch_fit_def MiniBatch_init_def choice_no_replace_def next_raw_def
  take_rows_def as_refset_def argmin_axis1_def euclid_distances_def row_sub_def linalg_norm_def
  np_sum_def np_argmin_def MiniBatch_update_def cluster_rows_def mean0_def ncols_def column_def

lemma MiniBatch_example:
  "MiniBatch_fit (MiniBatch_init 2 2 3) [[0], [4]] [] =
     (Inr 3, \<lparr>n_clusters = 2, batch_size = 2, max_iter = 3, verbose = False,
        X_train = Some [[0], [4]], fitted = True, centroids = Some [[Fin 0], [Fin 4]]\<rparr>)"
  by (simp add: minibatch_eval numeral_2_eq_2 numeral_3_eq_3)


section \<open>A fit without iterations\<close>


lemma KMeans_no_iterations_example:
  "fit KMeansClustering (KMeans_init 2 0 False) [[0], [4], [7]] [] =
     (Inr 0, (KMeans_init 2 0 False)
        \<lparr>X_train := Some [[0], [4], [7]], centroids := Some [[Fin 0], [Fin 4]],
         fitted := True\<rparr>)"
  by (simp add: KMeans_fit_def KMeans_init_def choice_no_replace_def next_raw_def
        take_rows_def as_refset_def run_numeral)


section \<open>What a failing fit leaves behind\<close>




section \<open>Early stopping in K-Means and K-Medians\<close>

text \<open>The convergence check succeeds only on equal reference sets without \<^verbatim>\<open>nan\<close>.\<close>

lemma np_eq_imp_eq: "np_eq a b \<Longrightarrow> a = b"
  by (cases a; cases b) simp_all

lemma np_all_eq_imp_eq: "np_all_eq A B \<Longrightarrow> A = B"
proof -
  assume "np_all_eq A B"
  then have "list_all2 (list_all2 (=)) A B"
    unfolding np_all_eq_def
    by (rule list_all2_mono) (erule list_all2_mono, rule np_eq_imp_eq)
  then show "A = B" by (simp add: list_all2_eq [symmetric] list.rel_eq)
qed

lemma iterates_fixed_point: "step c = Inr c \<Longrightarrow> iterates step j c = Inr c"
  by (induction j) simp_all

lemma iterates_add:
  "iterates step j c0 = Inr c \<Longrightarrow> iterates step (j + m) c0 = iterates step m c"
  by (induction j arbitrary: c0) (auto split: sum.splits)

lemma KMeans_loop_Suc:
  "KMeans_loop X K (Suc n) it cs =
     (case KMeans_iteration X K cs of
        Inl e \<Rightarrow> Inl (e, cs)
      | Inr new \<Rightarrow> if np_all_eq new cs then Inr (cs, Suc it)
                   else KMeans_loop X K n (Suc it) new)"
  by (simp add: KMeans_iteration_def Let_def split: sum.splits)

lemma KMedians_loop_Suc:
  "KMedians_loop X K (Suc n) it cs =
     (case KMedians_iteration X K cs of
        Inl e \<Rightarrow> Inl (e, cs)
      | Inr new \<Rightarrow> if np_all_eq new cs then Inr (cs, Suc it)
                   else KMedians_loop X K n (Suc it) new)"
  by (simp add: KMedians_iteration_def Let_def split: sum.splits)

text \<open>A loop with the convergence check stops at the first fixed point it meets.\<close>

lemma checked_loop_stops:
  assumes L: "\<And>n it cs. L (Suc n) it cs =
               (case step cs of
                  Inl e \<Rightarrow> Inl (e, cs)
                | Inr new \<Rightarrow> if np_all_eq new cs then Inr (cs, Suc it) else L n (Suc it) new)"
  shows "iterates step j c0 = Inr c \<Longrightarrow> step c = Inr c' \<Longrightarrow> np_all_eq c' c \<Longrightarrow> j < n \<Longrightarrow>
         \<exists>it'. L n it c0 = Inr (c, it') \<and> it < it' \<and> it' \<le> it + j + 1
               \<and> ((\<forall>i<j. \<not> fixed_round step c0 i) \<longrightarrow> it' = it + j + 1)"
proof (induction j arbitrary: c0 n it)
  case 0
  then obtain n' where n: "n = Suc n'" by (cases n) auto
  from 0 have "c0 = c" by simp
  then show ?case using 0 n by (simp add: L)
next
  case (Suc j)
  then obtain n' where n: "n = Suc n'" by (cases n) auto
  from Suc.prems(1) obtain c1 where s0: "step c0 = Inr c1"
    and it1: "iterates step j c1 = Inr c"
    by (auto split: sum.splits)
  show ?case
  proof (cases "np_all_eq c1 c0")
    case True
    then have "c1 = c0" by (rule np_all_eq_imp_eq)
    with s0 have "iterates step j c0 = Inr c0" by (simp add: iterates_fixed_point)
    with it1 \<open>c1 = c0\<close> have "c0 = c" by simp
    have "fixed_round step c0 0" using True s0 by (simp add: fixed_round_def)
    then have "\<not> (\<forall>i<Suc j. \<not> fixed_round step c0 i)" by blast
    then show ?thesis using True s0 n \<open>c0 = c\<close> by (simp add: L)
  next
    case False
    from Suc.prems(4) n have "j < n'" by simp
    from Suc.IH [OF it1 Suc.prems(2,3) this, of "Suc it"]
    obtain it' where l: "L n' (Suc it) c1 = Inr (c, it')" and b: "Suc it < it'"
        "it' \<le> Suc it + j + 1"
      and x: "(\<forall>i<j. \<not> fixed_round step c1 i) \<longrightarrow> it' = Suc it + j + 1"
      by blast
    have shift: "fixed_round step c1 i = fixed_round step c0 (Suc i)" for i
      using s0 by (simp add: fixed_round_def)
    have "(\<forall>i<Suc j. \<not> fixed_round step c0 i) \<longrightarrow> it' = it + Suc j + 1"
      using x shift by auto
    then show ?thesis using False s0 n l b by (simp add: L)
  qed
qed

lemma KMeans_loop_stops:
  "iterates (KMeans_iteration X K) j c0 = Inr c \<Longrightarrow> KMeans_iteration X K c = Inr c' \<Longrightarrow>
   np_all_eq c' c \<Longrightarrow> j < n \<Longrightarrow>
   \<exists>it'. KMeans_loop X K n it c0 = Inr (c, it') \<and> it < it' \<and> it' \<le> it + j + 1
         \<and> ((\<forall>i<j. \<not> fixed_round (KMeans_iteration X K) c0 i) \<longrightarrow> it' = it + j + 1)"
  by (rule checked_loop_stops [where L = "KMeans_loop X K", OF KMeans_loop_Suc])

lemma KMedians_loop_stops:
  "iterates (KMedians_iteration X K) j c0 = Inr c \<Longrightarrow> KMedians_iteration X K c = Inr c' \<Longrightarrow>
   np_all_eq c' c \<Longrightarrow> j < n \<Longrightarrow>
   \<exists>it'. KMedians_loop X K n it c0 = Inr (c, it') \<and> it < it' \<and> it' \<le> it + j + 1
         \<and> ((\<forall>i<j. \<not> fixed_round (KMedians_iteration X K) c0 i) \<longrightarrow> it' = it + j + 1)"
  by (rule checked_loop_stops [where L = "KMedians_loop X K", OF KMedians_loop_Suc])

text \<open>
  Claim C3. For K-Means and K-Medians: when the reference set \<open>c\<close> that \<open>j\<close> rounds of
  assignment and update make of the sampled rows (\<open>j\<close> below \<open>max_iter\<close>) is reproduced
  elementwise by the next update, \<open>fit\<close> leaves its loop in that iteration, the
  \<open>(j + 1)\<close>-th of at most \<open>max_iter\<close>, or in an earlier one that met the same fixed point
  (none did when no earlier round reproduced its reference set), and the fitted reference
  set is that fixed point.
\<close>

theorem fit_stops_at_fixed_point:
  "(choice_no_replace (length X) (n_clusters s) rs = Inr (idx, rs')
      \<and> iterates (KMeans_iteration X (n_clusters s)) j (as_refset (take_rows X idx)) = Inr c
      \<and> KMeans_iteration X (n_clusters s) c = Inr c' \<and> np_all_eq c' c
      \<and> int j < max_iter s \<longrightarrow>
    c' = c \<and>
    (\<exists>it. 0 < it \<and> it \<le> j + 1 \<and> int it \<le> max_iter s
          \<and> ((\<forall>i<j. \<not> fixed_round (KMeans_iteration X (n_clusters s))
                           (as_refset (take_rows X idx)) i) \<longrightarrow> it = j + 1)
          \<and> KMeans_fit s X rs =
              (Inr it, s\<lparr>X_train := Some X, centroids := Some c, fitted := True\<rparr>)))
   \<and> (choice_no_replace (length X) (n_clusters s) rs = Inr (idx, rs')
      \<and> iterates (KMedians_iteration X (n_clusters s)) j (as_refset (take_rows X idx)) = Inr c
      \<and> KMedians_iteration X (n_clusters s) c = Inr c' \<and> np_all_eq c' c
      \<and> int j < max_iter s \<longrightarrow>
    c' = c \<and>
    (\<exists>it. 0 < it \<and> it \<le> j + 1 \<and> int it \<le> max_iter s
          \<and> ((\<forall>i<j. \<not> fixed_round (KMedians_iteration X (n_clusters s))
                           (as_refset (take_rows X idx)) i) \<longrightarrow> it = j + 1)
          \<and> KMedians_fit s X rs =
              (Inr it, s\<lparr>X_train := Some X, centroids := Some c, fitted := True\<rparr>)))"
proof (intro conjI impI; elim conjE)
  assume c: "choice_no_replace (length X) (n_clusters s) rs = Inr (idx, rs')"
    and i: "iterates (KMeans_iteration X (n_clusters s)) j (as_refset (take_rows X idx)) = Inr c"
    and f: "KMeans_iteration X (n_clusters s) c = Inr c'" and e: "np_all_eq c' c"
    and j: "int j < max_iter s"
  show "c' = c" using e by (rule np_all_eq_imp_eq)
  from j have "j < nat (max_iter s)" by simp
  from KMeans_loop_stops [OF i f e this, of 0]
  obtain it where "KMeans_loop X (n_clusters s) (nat (max_iter s)) 0
                     (as_refset (take_rows X idx)) = Inr (c, it)" "0 < it" "it \<le> j + 1"
    "(\<forall>i<j. \<not> fixed_round (KMeans_iteration X (n_clusters s))
                           (as_refset (take_rows X idx)) i) \<longrightarrow> it = j + 1"
    by auto
  then show "\<exists>it. 0 < it \<and> it \<le> j + 1 \<and> int it \<le> max_iter s
          \<and> ((\<forall>i<j. \<not> fixed_round (KMeans_iteration X (n_clusters s))
                           (as_refset (take_rows X idx)) i) \<longrightarrow> it = j + 1)
          \<and> KMeans_fit s X rs =
              (Inr it, s\<lparr>X_train := Some X, centroids := Some c, fitted := True\<rparr>)"
    using c j by (intro exI [of _ it]) (simp add: KMeans_fit_def)
next
  assume c: "choice_no_replace (length X) (n_clusters s) rs = Inr (idx, rs')"
    and i: "iterates (KMedians_iteration X (n_clusters s)) j (as_refset (take_rows X idx)) = Inr c"
    and f: "KMedians_iteration X (n_clusters s) c = Inr c'" and e: "np_all_eq c' c"
    and j: "int j < max_iter s"
  show "c' = c" using e by (rule np_all_eq_imp_eq)
  from j have "j < nat (max_iter s)" by simp
  from KMedians_loop_stops [OF i f e this, of 0]
  obtain it where "KMedians_loop X (n_clusters s) (nat (max_iter s)) 0
                     (as_refset (take_rows X idx)) = Inr (c, it)" "0 < it" "it \<le> j + 1"
    "(\<forall>i<j. \<not> fixed_round (KMedians_iteration X (n_clusters s))
                           (as_refset (take_rows X idx)) i) \<longrightarrow> it = j + 1"
    by auto
  then show "\<exists>it. 0 < it \<and> it \<le> j + 1 \<and> int it \<le> max_iter s
          \<and> ((\<forall>i<j. \<not> fixed_round (KMedians_iteration X (n_clusters s))
                           (as_refset (take_rows X idx)) i) \<longrightarrow> it = j + 1)
          \<and> KMedians_fit s X rs =
              (Inr it, s\<lparr>X_train := Some X, centroids := Some c, fitted := True\<rparr>)"
    using c j by (intro exI [of _ it]) (simp add: KMedians_fit_def)
qed

lemmas step_eval = argmin_axis1_def euclid_distances_def manhattan_distances_def row_sub_def
  linalg_norm_def abs_sum_def np_sum_def np_argmin_def cluster_rows_def mean0_def median0_def
  median_def ncols_def column_def

lemma KMeans_step1:
  "KMeans_iteration [[0], [2], [10]] 2 [[Fin 0], [Fin 2]] = Inr [[Fin 0], [Fin 6]]"
  by (simp add: KMeans_iteration_def KMeans_update_def step_eval numeral_2_eq_2)

lemma KMeans_step2:
  "KMeans_iteration [[0], [2], [10]] 2 [[Fin 0], [Fin 6]] = Inr [[Fin 1], [Fin 10]]"
  by (simp add: KMeans_iteration_def KMeans_update_def step_eval numeral_2_eq_2)

lemma KMeans_step3:
  "KMeans_iteration [[0], [2], [10]] 2 [[Fin 1], [Fin 10]] = Inr [[Fin 1], [Fin 10]]"
  by (simp add: KMeans_iteration_def KMeans_update_def step_eval numeral_2_eq_2)

lemma KMedians_step1:
  "KMedians_iteration [[0], [2], [10]] 2 [[Fin 0], [Fin 2]] = Inr [[Fin 0], [Fin 6]]"
  by (simp add: KMedians_iteration_def KMedians_update_def step_eval numeral_2_eq_2)

lemma KMedians_step2:
  "KMedians_iteration [[0], [2], [10]] 2 [[Fin 0], [Fin 6]] = Inr [[Fin 1], [Fin 10]]"
  by (simp add: KMedians_iteration_def KMedians_update_def step_eval numeral_2_eq_2)

lemma KMedians_step3:
  "KMedians_iteration [[0], [2], [10]] 2 [[Fin 1], [Fin 10]] = Inr [[Fin 1], [Fin 10]]"
  by (simp add: KMedians_iteration_def KMedians_update_def step_eval numeral_2_eq_2)

lemma sample_first_two: "choice_no_replace (length [[0::real], [2], [10]]) 2 [] = Inr ([0, 1], [])"
  by (simp add: choice_no_replace_def next_raw_def sample_pool_numeral)

theorem fit_stops_at_fixed_point_witness:
  "KMeans_fit (KMeans_init 2 5 False) [[0], [2], [10]] [] =
     (Inr 3, (KMeans_init 2 5 False)
        \<lparr>X_train := Some [[0], [2], [10]], centroids := Some [[Fin 1], [Fin 10]],
         fitted := True\<rparr>)
   \<and> KMedians_fit (KMedians_init 2 5 False) [[0], [2], [10]] [] =
     (Inr 3, (KMedians_init 2 5 False)
        \<lparr>X_train := Some [[0], [2], [10]], centroids := Some [[Fin 1], [Fin 10]],
         fitted := True\<rparr>)"
proof -
  have e: "np_all_eq [[Fin 1], [Fin 10]] [[Fin 1], [Fin 10]]" by (simp add: np_all_eq_def)
  have k: "iterates (KMeans_iteration [[0], [2], [10]] 2) 2 [[Fin 0], [Fin 2]]
             = Inr [[Fin 1], [Fin 10]]"
    by (simp add: iterates_numeral KMeans_step1 KMeans_step2)
  have m: "iterates (KMedians_iteration [[0], [2], [10]] 2) 2 [[Fin 0], [Fin 2]]
             = Inr [[Fin 1], [Fin 10]]"
    by (simp add: iterates_numeral KMedians_step1 KMedians_step2)
  have nk: "\<forall>i<2. \<not> fixed_round (KMeans_iteration [[0], [2], [10]] 2) [[Fin 0], [Fin 2]] i"
    by (simp add: numeral_2_eq_2 All_less_Suc fixed_round_def KMeans_step1 KMeans_step2
          np_all_eq_def)
  have nm: "\<forall>i<2. \<not> fixed_round (KMedians_iteration [[0], [2], [10]] 2) [[Fin 0], [Fin 2]] i"
    by (simp add: numeral_2_eq_2 All_less_Suc fixed_round_def KMedians_step1 KMedians_step2
          np_all_eq_def)
  have 1: "KMeans_fit (KMeans_init 2 5 False) [[0], [2], [10]] [] =
     (Inr 3, (KMeans_init 2 5 False)
        \<lparr>X_train := Some [[0], [2], [10]], centroids := Some [[Fin 1], [Fin 10]],
         fitted := True\<rparr>)"
    using fit_stops_at_fixed_point
            [of "[[0], [2], [10]]" "KMeans_init 2 5 False" "[]" "[0, 1]" "[]" 2
                "[[Fin 1], [Fin 10]]" "[[Fin 1], [Fin 10]]"]
          e k nk sample_first_two KMeans_step3
    by (auto simp: KMeans_init_def take_rows_def as_refset_def)
  have 2: "KMedians_fit (KMedians_init 2 5 False) [[0], [2], [10]] [] =
     (Inr 3, (KMedians_init 2 5 False)
        \<lparr>X_train := Some [[0], [2], [10]], centroids := Some [[Fin 1], [Fin 10]],
         fitted := True\<rparr>)"
    using fit_stops_at_fixed_point
            [of "[[0], [2], [10]]" "KMedians_init 2 5 False" "[]" "[0, 1]" "[]" 2
                "[[Fin 1], [Fin 10]]" "[[Fin 1], [Fin 10]]"]
          e m nm sample_first_two KMedians_step3
    by (auto simp: KMedians_init_def take_rows_def as_refset_def)
  from 1 2 show ?thesis by simp
qed

section \<open>K-Means++ has no convergence check\<close>

lemma KMeansPlus_loop_count:
  "KMeansPlus_loop X K v n it cs = Inr (cs', it') \<Longrightarrow> it' = it + n"
proof (induction n arbitrary: it cs)
  case 0
  then show ?case by simp
next
  case (Suc n)
  from Suc.prems obtain cs1 where "KMeansPlus_loop X K v n (Suc it) cs1 = Inr (cs', it')"
    by (auto simp: Let_def split: sum.splits if_splits)
  from Suc.IH [OF this] show ?case by simp
qed

lemma KMeansPlus_loop_iterates:
  "\<not> (v \<and> K \<le> 0) \<Longrightarrow> iterates (KMeansPlus_iteration X K) n cs = Inr c \<Longrightarrow>
   KMeansPlus_loop X K v n it cs = Inr (c, it + n)"
proof (induction n arbitrary: it cs)
  case 0
  then show ?case by simp
next
  case (Suc n)
  from Suc.prems(2) obtain cs1 where s: "KMeansPlus_iteration X K cs = Inr cs1"
    and i: "iterates (KMeansPlus_iteration X K) n cs1 = Inr c"
    by (auto split: sum.splits)
  from s obtain ls where a: "argmin_axis1 (length cs) (euclid_distances X cs) = Inr ls"
    and u: "cs1 = KMeansPlus_update X K ls cs"
    by (auto simp: KMeansPlus_iteration_def split: sum.splits)
  from Suc.IH [OF Suc.prems(1) i, of "Suc it"] show ?case
    using a u Suc.prems(1) by (simp add: Let_def)
qed

text \<open>
  Claim C2. (as amended) \<open>KMeansClusteringPlus.fit\<close> has no convergence check: whenever it
  returns, its loop has run \<open>max_iter\<close> times. When an update reproduces the reference set
  elementwise, the remaining iterations still run and leave it as it is, so the result is
  the fixed point all the same.
\<close>

theorem KMeansPlus_never_stops_early:
  "(KMeansPlus_fit s X rs = (Inr it, s') \<longrightarrow> it = nat (max_iter s))
   \<and> (initialize_centroids (n_clusters s) X rs = Inr (seeds, rs')
      \<and> iterates (KMeansPlus_iteration X (n_clusters s)) j (as_refset seeds) = Inr c
      \<and> KMeansPlus_iteration X (n_clusters s) c = Inr c' \<and> np_all_eq c' c
      \<and> int j < max_iter s \<and> \<not> (verbose s \<and> n_clusters s \<le> 0) \<longrightarrow>
    KMeansPlus_fit s X rs =
      (Inr (nat (max_iter s)), s\<lparr>X_train := Some X, centroids := Some c, fitted := True\<rparr>))"
proof (intro conjI impI; (elim conjE)?)
  assume "KMeansPlus_fit s X rs = (Inr it, s')"
  then show "it = nat (max_iter s)"
    by (auto simp: KMeansPlus_fit_def Let_def split: sum.splits prod.splits option.splits
             dest: KMeansPlus_loop_count)
next
  assume init: "initialize_centroids (n_clusters s) X rs = Inr (seeds, rs')"
    and i: "iterates (KMeansPlus_iteration X (n_clusters s)) j (as_refset seeds) = Inr c"
    and f: "KMeansPlus_iteration X (n_clusters s) c = Inr c'" and e: "np_all_eq c' c"
    and j: "int j < max_iter s" and v: "\<not> (verbose s \<and> n_clusters s \<le> 0)"
  from e have "c' = c" by (rule np_all_eq_imp_eq)
  with f have fp: "KMeansPlus_iteration X (n_clusters s) c = Inr c" by simp
  from j have "nat (max_iter s) = j + (nat (max_iter s) - j)" by simp
  then have "iterates (KMeansPlus_iteration X (n_clusters s)) (nat (max_iter s)) (as_refset seeds)
        = iterates (KMeansPlus_iteration X (n_clusters s)) (nat (max_iter s) - j) c"
    using iterates_add [OF i] by metis
  also have "\<dots> = Inr c" using fp by (rule iterates_fixed_point)
  finally have "KMeansPlus_loop X (n_clusters s) (verbose s) (nat (max_iter s)) 0
                  (as_refset seeds) = Inr (c, nat (max_iter s))"
    using KMeansPlus_loop_iterates [OF v, of X "nat (max_iter s)" "as_refset seeds" c 0]
    by simp
  then show "KMeansPlus_fit s X rs =
      (Inr (nat (max_iter s)), s\<lparr>X_train := Some X, centroids := Some c, fitted := True\<rparr>)"
    using init by (simp add: KMeansPlus_fit_def)
qed

lemma sq_dist_1d: "sq_dist [a] [b] = (a - b) ^ 2"
  by (simp add: sq_dist_def)

lemma seeds_example:
  "initialize_centroids 2 [[0], [4]] [] = Inr ([[0], [4]], [])"
  by (simp add: initialize_centroids_def choice_single_def next_raw_def seed_probs_def
        seed_distances_def sq_dist_1d np_div_def choice_weighted_def check_probs_def)

lemma KMeansPlus_step_example:
  "KMeansPlus_iteration [[0], [4]] 2 [[Fin 0], [Fin 4]] = Inr [[Fin 0], [Fin 4]]"
  by (simp add: KMeansPlus_iteration_def KMeansPlus_update_def step_eval numeral_2_eq_2)

text \<open>
  The claim as stated does not hold: here the first update already reproduces the seeds,
  and the loop still runs its three iterations.
\<close>

theorem KMeansPlus_runs_past_fixed_point:
  "initialize_centroids 2 [[0], [4]] [] = Inr ([[0], [4]], [])
   \<and> KMeansPlus_iteration [[0], [4]] 2 [[Fin 0], [Fin 4]] = Inr [[Fin 0], [Fin 4]]
   \<and> np_all_eq [[Fin 0], [Fin 4]] [[Fin 0], [Fin 4]]
   \<and> KMeansPlus_fit (KMeansPlus_init 2 3 False) [[0], [4]] [] =
       (Inr 3, (KMeansPlus_init 2 3 False)
          \<lparr>X_train := Some [[0], [4]], centroids := Some [[Fin 0], [Fin 4]],
           fitted := True\<rparr>)"
  by (simp add: seeds_example KMeansPlus_step_example np_all_eq_def KMeansPlus_fit_def
        KMeansPlus_init_def as_refset_def KMeansPlus_loop_numeral
        KMeansPlus_update_def step_eval numeral_2_eq_2)

theorem KMeansPlus_never_stops_early_witness:
  "KMeansPlus_fit (KMeansPlus_init 2 3 False) [[0], [4]] [] =
       (Inr 3, (KMeansPlus_init 2 3 False)
          \<lparr>X_train := Some [[0], [4]], centroids := Some [[Fin 0], [Fin 4]],
           fitted := True\<rparr>)
   \<and> (3 :: nat) = nat (max_iter (KMeansPlus_init 2 3 False))"
proof -
  have e: "np_all_eq [[Fin 0], [Fin 4]] [[Fin 0], [Fin 4]]" by (simp add: np_all_eq_def)
  have i: "iterates (KMeansPlus_iteration [[0], [4]] 2) 0 [[Fin 0], [Fin 4]]
             = Inr [[Fin 0], [Fin 4]]" by simp
  have r: "KMeansPlus_fit (KMeansPlus_init 2 3 False) [[0], [4]] [] =
       (Inr 3, (KMeansPlus_init 2 3 False)
          \<lparr>X_train := Some [[0], [4]], centroids := Some [[Fin 0], [Fin 4]],
           fitted := True\<rparr>)"
    using KMeansPlus_never_stops_early
            [of "KMeansPlus_init 2 3 False" "[[0], [4]]" "[]" 3
                "(KMeansPlus_init 2 3 False)
                   \<lparr>X_train := Some [[0], [4]], centroids := Some [[Fin 0], [Fin 4]],
                    fitted := True\<rparr>" "[[0], [4]]" "[]" 0
                "[[Fin 0], [Fin 4]]" "[[Fin 0], [Fin 4]]"]
          e i seeds_example KMeansPlus_step_example
    by (simp add: KMeansPlus_init_def as_refset_def)
  from KMeansPlus_never_stops_early
            [of "KMeansPlus_init 2 3 False" "[[0], [4]]" "[]" 3
                "(KMeansPlus_init 2 3 False)
                   \<lparr>X_train := Some [[0], [4]], centroids := Some [[Fin 0], [Fin 4]],
                    fitted := True\<rparr>"] r
  show ?thesis by simp
qed

section \<open>The seeding of K-Means++\<close>

lemma sum_sq_nonneg: "0 \<le> sum_list (map2 (\<lambda>a b. \<bar>a - b\<bar> ^ 2) x (c :: real list))"
proof (induction x arbitrary: c)
  case Nil
  then show ?case by simp
next
  case (Cons a x)
  then show ?case by (cases c) simp_all
qed

lemma sq_dist_eq: "sq_dist x c = sum_list (map2 (\<lambda>a b. \<bar>a - b\<bar> ^ 2) x c)"
  using sum_sq_nonneg [of x c] by (simp add: sq_dist_def)

lemma sq_dist_nonneg: "0 \<le> sq_dist x c"
  using sum_sq_nonneg [of x c] by (simp add: sq_dist_eq)

lemma sq_dist_self: "sq_dist x x = 0"
proof -
  have "map2 (\<lambda>a b. \<bar>a - b\<bar> ^ 2) x x = map (\<lambda>a. 0) x"
    by (induction x) simp_all
  then show ?thesis by (simp add: sq_dist_eq)
qed

lemma seed_distances_nonneg:
  assumes "seeds \<noteq> []" and "d \<in> set (seed_distances X seeds)"
  shows "0 \<le> d"
proof -
  from assms(2) obtain x where d: "d = Min (set (map (sq_dist x) seeds))"
    by (auto simp: seed_distances_def)
  have "Min (set (map (sq_dist x) seeds)) \<in> set (map (sq_dist x) seeds)"
    using assms(1) by (intro Min_in) simp_all
  then show ?thesis using d sq_dist_nonneg by auto
qed

lemma seed_probs_eq:
  "seed_probs X seeds =
     map (\<lambda>d. np_div d (sum_list (seed_distances X seeds))) (seed_distances X seeds)"
  by (simp add: seed_probs_def Let_def)

lemma sum_list_pos_member:
  "(\<And>d. d \<in> set ds \<Longrightarrow> 0 \<le> d) \<Longrightarrow> 0 < sum_list ds \<Longrightarrow> \<exists>d \<in> set ds. 0 < (d :: real)"
proof (induction ds)
  case Nil
  then show ?case by simp
next
  case (Cons a ds)
  show ?case
  proof (cases "0 < a")
    case True
    then show ?thesis by auto
  next
    case False
    with Cons.prems(1) [of a] have "a = 0" by simp
    with Cons.prems(2) have "0 < sum_list ds" by simp
    with Cons.IH Cons.prems(1) show ?thesis by auto
  qed
qed

lemma sum_list_divide: "sum_list (map (\<lambda>d. d / S) ds) = sum_list ds / (S :: real)"
  by (induction ds) (simp_all add: add_divide_distrib)

text \<open>A weighted draw of the next seed either finds all probabilities \<^verbatim>\<open>nan\<close> or returns a
  row that is none of the seeds drawn so far.\<close>

lemma next_seed:
  assumes X: "X \<noteq> []" and seeds: "seeds \<noteq> []"
  shows "choice_weighted (length X) (seed_probs X seeds) rs = Inl (ValueError ProbabilitiesNaN)
       \<or> (\<exists>i rs'. choice_weighted (length X) (seed_probs X seeds) rs = Inr (i, rs')
             \<and> i < length X \<and> X ! i \<notin> set seeds)"
proof -
  let ?ds = "seed_distances X seeds"
  let ?S = "sum_list ?ds"
  let ?probs = "seed_probs X seeds"
  have ds_ne: "?ds \<noteq> []" using X by (simp add: seed_distances_def)
  have nn: "\<And>d. d \<in> set ?ds \<Longrightarrow> 0 \<le> d" using seed_distances_nonneg [OF seeds] by blast
  show ?thesis
  proof (cases "?S = 0")
    case True
    then have "?probs = map (\<lambda>d. NaN) ?ds" by (simp add: seed_probs_eq np_div_def)
    then have "list_ex is_nan ?probs" using ds_ne by (cases ?ds) simp_all
    then have "check_probs ?probs = Some ContainNaN" by (simp add: check_probs_def)
    then show ?thesis using X by (simp add: choice_weighted_def)
  next
    case False
    have "0 \<le> ?S" using nn by (rule sum_list_nonneg)
    with False have S: "0 < ?S" by simp
    have probs: "?probs = map (\<lambda>d. Fin (d / ?S)) ?ds"
      using False by (simp add: seed_probs_eq np_div_def)
    have len: "length ?probs = length X" by (simp add: seed_probs_eq seed_distances_def)
    have no_nan: "\<not> list_ex is_nan ?probs" by (simp add: probs list_ex_iff)
    have no_neg: "\<not> list_ex (\<lambda>p. the_fin p < 0) ?probs"
      using nn S by (auto simp: probs list_ex_iff not_less)
    have "sum_list (map the_fin ?probs) = sum_list (map (\<lambda>d. d / ?S) ?ds)"
      by (simp add: probs o_def)
    also have "\<dots> = ?S / ?S" by (rule sum_list_divide)
    also have "\<dots> = 1" using S by simp
    finally have "sum_list (map the_fin ?probs) = 1" .
    with no_nan no_neg have ok: "check_probs ?probs = None" by (simp add: check_probs_def)
    let ?cands = "filter (\<lambda>i. 0 < the_fin (?probs ! i)) [0..<length X]"
    from sum_list_pos_member [OF nn S] obtain d where "d \<in> set ?ds" "0 < d" by blast
    then obtain i0 where i0: "i0 < length X" "0 < ?ds ! i0"
      by (auto simp: in_set_conv_nth seed_distances_def)
    then have "0 < the_fin (?probs ! i0)"
      using S by (simp add: probs seed_distances_def)
    with i0 have "i0 \<in> set ?cands" by simp
    then have cne: "?cands \<noteq> []" by (metis empty_iff empty_set)
    obtain r rs' where nr: "next_raw rs = (r, rs')" by (cases "next_raw rs")
    let ?i = "?cands ! (r mod length ?cands)"
    have res: "choice_weighted (length X) ?probs rs = Inr (?i, rs')"
      using X ok nr by (simp add: choice_weighted_def Let_def)
    have "?i \<in> set ?cands" using cne by (intro nth_mem) simp
    then have i: "?i < length X" and p: "0 < the_fin (?probs ! ?i)" by auto
    from p i S have dpos: "0 < ?ds ! ?i"
      by (simp add: probs seed_distances_def zero_less_divide_iff)
    have "X ! ?i \<notin> set seeds"
    proof
      assume mem: "X ! ?i \<in> set seeds"
      then have "sq_dist (X ! ?i) (X ! ?i) \<in> set (map (sq_dist (X ! ?i)) seeds)" by simp
      then have "Min (set (map (sq_dist (X ! ?i)) seeds)) \<le> sq_dist (X ! ?i) (X ! ?i)"
        by (intro Min_le) simp_all
      then have "?ds ! ?i \<le> 0" using i by (simp add: seed_distances_def sq_dist_self)
      with dpos show False by simp
    qed
    with res i show ?thesis by blast
  qed
qed
lemma seed_loop_invariant:
  assumes X: "X \<noteq> []"
  shows "seeds \<noteq> [] \<Longrightarrow> distinct seeds \<Longrightarrow> set seeds \<subseteq> set X \<Longrightarrow>
    (case seed_loop X k seeds rs of
       Inl (e, seeds') \<Rightarrow> e = ValueError ProbabilitiesNaN
     | Inr (seeds', rs') \<Rightarrow>
         distinct seeds' \<and> set seeds' \<subseteq> set X \<and> length seeds' = length seeds + k)"
proof (induction k arbitrary: seeds rs)
  case 0
  then show ?case by simp
next
  case (Suc k)
  from next_seed [OF X Suc.prems(1), of rs]
  show ?case
  proof (elim disjE exE conjE)
    assume "choice_weighted (length X) (seed_probs X seeds) rs
              = Inl (ValueError ProbabilitiesNaN)"
    then show ?thesis by simp
  next
    fix i rs'
    assume c: "choice_weighted (length X) (seed_probs X seeds) rs = Inr (i, rs')"
      and i: "i < length X" and new: "X ! i \<notin> set seeds"
    let ?seeds = "seeds @ [X ! i]"
    have "?seeds \<noteq> []" "distinct ?seeds" "set ?seeds \<subseteq> set X"
      using Suc.prems i new by auto
    from Suc.IH [OF this, of rs'] show ?thesis
      using c by (auto split: sum.splits prod.splits)
  qed
qed

lemma distinct_rows_bound:
  "distinct seeds \<Longrightarrow> set seeds \<subseteq> set X \<Longrightarrow> length seeds \<le> length X"
proof -
  assume d: "distinct seeds" and s: "set seeds \<subseteq> set X"
  have "length seeds = card (set seeds)" using d by (simp add: distinct_card)
  also have "\<dots> \<le> card (set X)" using s by (simp add: card_mono)
  also have "\<dots> \<le> length X" by (rule card_length)
  finally show ?thesis .
qed

text \<open>With more clusters than rows the seeding of K-Means++ cannot succeed.\<close>

lemma initialize_centroids_too_few_rows:
  assumes "int (length X) < K"
  shows "\<exists>seeds. initialize_centroids K X rs =
           Inl (ValueError (if X = [] then EmptyPopulation else ProbabilitiesNaN), seeds)"
proof (cases "X = []")
  case True
  then show ?thesis by (simp add: initialize_centroids_def choice_single_def)
next
  case False
  obtain r rs' where nr: "next_raw rs = (r, rs')" by (cases "next_raw rs")
  let ?first = "r mod length X"
  have f: "?first < length X" using False by simp
  have c: "choice_single (length X) rs = Inr (?first, rs')"
    using False nr by (simp add: choice_single_def)
  have pre: "[X ! ?first] \<noteq> []" "distinct [X ! ?first]" "set [X ! ?first] \<subseteq> set X"
    using f by simp_all
  note inv = seed_loop_invariant [OF False pre, of "nat (K - 1)" rs']
  show ?thesis
  proof (cases "seed_loop X (nat (K - 1)) [X ! ?first] rs'")
    case (Inl a)
    then show ?thesis using inv c False
      by (cases a) (simp add: initialize_centroids_def)
  next
    case (Inr b)
    obtain seeds' rs'' where b: "b = (seeds', rs'')" by (cases b)
    with inv Inr have "distinct seeds'" "set seeds' \<subseteq> set X"
      "length seeds' = 1 + nat (K - 1)" by simp_all
    with distinct_rows_bound [of seeds' X] have "1 + nat (K - 1) \<le> length X" by simp
    with assms have False by simp
    then show ?thesis ..
  qed
qed

lemma KMeansPlus_fit_too_few_rows:
  assumes "int (length X) < n_clusters s"
  shows "\<exists>s'. KMeansPlus_fit s X rs =
           (Inl (ValueError (if X = [] then EmptyPopulation else ProbabilitiesNaN)), s')
         \<and> X_train s' = Some X \<and> fitted s' = fitted s"
proof -
  from initialize_centroids_too_few_rows [OF assms, of rs]
  obtain seeds where "initialize_centroids (n_clusters s) X rs =
           Inl (ValueError (if X = [] then EmptyPopulation else ProbabilitiesNaN), seeds)"
    by blast
  then show ?thesis by (cases seeds) (simp_all add: KMeansPlus_fit_def)
qed

lemma choice_no_replace_too_few:
  "int m < k \<Longrightarrow> choice_no_replace m k rs =
     Inl (ValueError (if m = 0 then EmptyPopulation else SampleLargerThanPopulation))"
  by (auto simp: choice_no_replace_def)

section \<open>More clusters than rows\<close>

text \<open>
  Claim C6. (as amended) No variant checks that \<open>n_clusters\<close> is at most the number \<open>N\<close> of
  rows. When \<open>n_clusters\<close> exceeds \<open>N\<close>, \<open>fit\<close> of K-Means, K-Medians and mini-batch K-Means
  fails with the sampling-range error of \<^verbatim>\<open>np.random.choice(N, n_clusters, replace=False)\<close>
  (sample larger than population; population empty when \<open>N = 0\<close>). K-Means++ draws its
  seeds one at a time and fails too, with the error of the weighted draw whose probabilities
  are all \<^verbatim>\<open>nan\<close> (or of the first draw, from an empty population).
\<close>

theorem sampling_fails_on_too_few_rows:
  assumes "int (length X) < n_clusters s"
  shows "(v \<noteq> KMeansClusteringPlus \<longrightarrow>
            fst (fit v s X rs) =
              Inl (ValueError (if X = [] then EmptyPopulation else SampleLargerThanPopulation)))
       \<and> (v = KMeansClusteringPlus \<longrightarrow>
            fst (fit v s X rs) =
              Inl (ValueError (if X = [] then EmptyPopulation else ProbabilitiesNaN)))"
proof (cases v)
  case KMeansClustering
  then show ?thesis using assms by (simp add: KMeans_fit_def choice_no_replace_too_few)
next
  case KMeansClusteringPlus
  then show ?thesis using KMeansPlus_fit_too_few_rows [OF assms, of rs] by auto
next
  case KMediansClustering
  then show ?thesis using assms by (simp add: KMedians_fit_def choice_no_replace_too_few)
next
  case MiniBatchKMeansClustering
  then show ?thesis using assms by (simp add: MiniBatch_fit_def choice_no_replace_too_few)
qed

theorem sampling_fails_on_too_few_rows_witness:
  "fst (fit KMediansClustering (KMedians_init 2 100 False) [[0]] [])
     = Inl (ValueError SampleLargerThanPopulation)
   \<and> fst (fit KMeansClusteringPlus (KMeansPlus_init 2 100 False) [[0]] [])
     = Inl (ValueError ProbabilitiesNaN)"
  using sampling_fails_on_too_few_rows
          [of "[[0]]" "KMedians_init 2 100 False" KMediansClustering "[]"]
        sampling_fails_on_too_few_rows
          [of "[[0]]" "KMeansPlus_init 2 100 False" KMeansClusteringPlus "[]"]
  by (simp add: KMedians_init_def KMeansPlus_init_def)

text \<open>
  The claim as stated does not hold for K-Means++: with three clusters and two rows it draws
  two seeds and fails on the third draw, and not with the sampling-range error.
\<close>

theorem KMeansPlus_fails_differently:
  "int (length [[0 :: real], [4]]) < n_clusters (KMeansPlus_init 3 100 False)
   \<and> fit KMeansClusteringPlus (KMeansPlus_init 3 100 False) [[0], [4]] [] =
       (Inl (ValueError ProbabilitiesNaN),
        (KMeansPlus_init 3 100 False)
          \<lparr>X_train := Some [[0], [4]], centroids := Some [[Fin 0], [Fin 4]]\<rparr>)
   \<and> ValueError ProbabilitiesNaN \<noteq> ValueError SampleLargerThanPopulation"
  by (simp add: KMeansPlus_fit_def KMeansPlus_init_def initialize_centroids_def
        choice_single_def next_raw_def seed_loop_numeral seed_probs_def seed_distances_def
        sq_dist_1d np_div_def choice_weighted_def check_probs_def as_refset_def)

text \<open>
  Claim C9. \<open>fit\<close> of K-Means++, K-Medians and mini-batch K-Means stores the new training
  set before it samples: a call with \<open>n_clusters\<close> greater than the number of rows fails, the
  instance then holds the new training set, and the fitted flag is as it was. (For K-Medians
  and mini-batch K-Means nothing else has changed.)
\<close>

theorem training_set_installed_before_sampling:
  assumes "v \<noteq> KMeansClustering" and "int (length X) < n_clusters s"
  shows "\<exists>e s'. fit v s X rs = (Inl e, s') \<and> X_train s' = Some X \<and> fitted s' = fitted s
           \<and> (v \<noteq> KMeansClusteringPlus \<longrightarrow> s' = s\<lparr>X_train := Some X\<rparr>)"
proof (cases v)
  case KMeansClustering
  then show ?thesis using assms by simp
next
  case KMeansClusteringPlus
  then show ?thesis using KMeansPlus_fit_too_few_rows [OF assms(2), of rs] by auto
next
  case KMediansClustering
  then show ?thesis using assms by (simp add: KMedians_fit_def choice_no_replace_too_few)
next
  case MiniBatchKMeansClustering
  then show ?thesis using assms by (simp add: MiniBatch_fit_def choice_no_replace_too_few)
qed
theorem training_set_installed_before_sampling_witness:
  "\<exists>e. fit MiniBatchKMeansClustering (MiniBatch_init 3 1 10) [[0], [1]] [] =
          (Inl e, (MiniBatch_init 3 1 10)\<lparr>X_train := Some [[0], [1]]\<rparr>)"
  using training_set_installed_before_sampling
          [of MiniBatchKMeansClustering "[[0], [1]]" "MiniBatch_init 3 1 10" "[]"]
  by (auto simp: MiniBatch_init_def)

section \<open>What argmin returns\<close>

lemma argmin_loop_range:
  "mi < i \<Longrightarrow> argmin_loop mp mi i xs < i + length xs"
proof (induction xs arbitrary: mp mi i)
  case Nil
  then show ?case by simp
next
  case (Cons x xs)
  have a: "argmin_loop x i (Suc i) xs < Suc i + length xs" by (rule Cons.IH) simp
  have b: "argmin_loop mp mi (Suc i) xs < Suc i + length xs"
    using Cons.prems by (intro Cons.IH) simp
  show ?case using a b Cons.prems by simp
qed

lemma np_argmin_less: "ds \<noteq> [] \<Longrightarrow> np_argmin ds < length ds"
  using argmin_loop_range [of 0 1] by (cases ds) (auto simp: np_argmin_def)

text \<open>
  The loop's invariant on a row without \<^verbatim>\<open>nan\<close>: \<open>pre\<close> is the part already seen, whose first
  minimum \<open>m\<close> stands at \<open>mi\<close>.
\<close>

lemma argmin_loop_first_min:
  assumes "list_all (\<lambda>d. \<not> is_nan d) (pre @ xs)"
    and "mi < length pre" and "pre ! mi = Fin m"
    and "list_all (\<lambda>d. np_ge d (Fin m)) pre"
    and "\<forall>k < mi. pre ! k \<noteq> Fin m"
  shows "\<exists>r. let l = argmin_loop (Fin m) mi (length pre) xs in
           l < length (pre @ xs) \<and> (pre @ xs) ! l = Fin r
           \<and> list_all (\<lambda>d. np_ge d (Fin r)) (pre @ xs)
           \<and> (\<forall>k < l. (pre @ xs) ! k \<noteq> Fin r)"
  using assms
proof (induction xs arbitrary: pre mi m)
  case Nil
  then show ?case by (auto simp: Let_def)
next
  case (Cons x xs)
  from Cons.prems(1) obtain q where x: "x = Fin q" by (cases x) auto
  let ?pre = "pre @ [x]"
  have all: "list_all (\<lambda>d. \<not> is_nan d) (?pre @ xs)" using Cons.prems(1) by simp
  show ?case
  proof (cases "q < m")
    case True
    have 1: "length pre < length ?pre" by simp
    have 2: "?pre ! length pre = Fin q" using x by simp
    have 3: "list_all (\<lambda>d. np_ge d (Fin q)) ?pre"
    proof -
      have "list_all (\<lambda>d. np_ge d (Fin q)) pre"
        using Cons.prems(4) True
        by (auto simp: list_all_iff elim!: np_ge.elims)
      then show ?thesis using x by simp
    qed
    have 4: "\<forall>k < length pre. ?pre ! k \<noteq> Fin q"
    proof (intro allI impI)
      fix k assume k: "k < length pre"
      then have "np_ge (pre ! k) (Fin m)" using Cons.prems(4) by (simp add: list_all_length)
      then show "?pre ! k \<noteq> Fin q" using True k by (auto simp: nth_append)
    qed
    from Cons.IH [OF all 1 2 3 4] show ?thesis
      using True x by (simp add: Let_def not_le)
  next
    case False
    have 1: "mi < length ?pre" using Cons.prems(2) by simp
    have 2: "?pre ! mi = Fin m" using Cons.prems(2,3) by (simp add: nth_append)
    have 3: "list_all (\<lambda>d. np_ge d (Fin m)) ?pre" using Cons.prems(4) False x by simp
    have 4: "\<forall>k < mi. ?pre ! k \<noteq> Fin m"
      using Cons.prems(2,5) by (simp add: nth_append)
    from Cons.IH [OF all 1 2 3 4] show ?thesis
      using False x by (simp add: Let_def)
  qed
qed

lemma np_argmin_nearest:
  assumes "ds \<noteq> []" and "list_all (\<lambda>d. \<not> is_nan d) ds"
  shows "nearest ds (np_argmin ds) \<and> (\<forall>k < np_argmin ds. \<not> nearest ds k)"
proof -
  from assms obtain m rest where ds: "ds = Fin m # rest"
    by (cases ds; cases "hd ds") auto
  from argmin_loop_first_min [of "[Fin m]" rest 0 m] assms(2)
  obtain r where l: "np_argmin ds < length ds" and v: "ds ! np_argmin ds = Fin r"
    and mn: "list_all (\<lambda>d. np_ge d (Fin r)) ds"
    and first: "\<forall>k < np_argmin ds. ds ! k \<noteq> Fin r"
    by (auto simp: ds np_argmin_def Let_def)
  have le: "list_all (\<lambda>d. case d of NaN \<Rightarrow> True | Fin q \<Rightarrow> r \<le> q) ds"
    using mn by (auto simp: list_all_iff split: npfloat.splits)
  have n: "nearest ds (np_argmin ds)" using l v le by (simp add: nearest_def)
  have "\<not> nearest ds k" if k: "k < np_argmin ds" for k
  proof
    assume nk: "nearest ds k"
    then obtain q where q: "ds ! k = Fin q"
      and qmin: "list_all (\<lambda>d. case d of NaN \<Rightarrow> True | Fin q' \<Rightarrow> q \<le> q') ds"
      by (auto simp: nearest_def split: npfloat.splits)
    have kl: "k < length ds" using k l by simp
    from qmin l v have "q \<le> r" by (auto simp: list_all_length split: npfloat.splits)
    moreover from mn kl q have "r \<le> q" by (auto simp: list_all_length)
    ultimately have "ds ! k = Fin r" using q by simp
    with first k show False by simp
  qed
  with n show ?thesis by blast
qed

text \<open>On a row with a \<^verbatim>\<open>nan\<close>, argmin is the place of the first \<^verbatim>\<open>nan\<close>.\<close>

lemma argmin_loop_first_nan:
  "\<not> is_nan mp \<Longrightarrow> list_ex is_nan xs \<Longrightarrow>
     (let l = argmin_loop mp mi i xs in
        i \<le> l \<and> l < i + length xs \<and> is_nan (xs ! (l - i))
        \<and> (\<forall>k < l - i. \<not> is_nan (xs ! k)))"
proof (induction xs arbitrary: mp mi i)
  case Nil
  then show ?case by simp
next
  case (Cons x xs)
  show ?case
  proof (cases "is_nan x")
    case True
    then have "x = NaN" by (cases x) simp_all
    then show ?thesis using Cons.prems(1) by (cases xs) (simp_all add: Let_def)
  next
    case False
    then have ex: "list_ex is_nan xs" using Cons.prems(2) by simp
    show ?thesis
    proof (cases "np_ge x mp")
      case True
      from Cons.IH [OF Cons.prems(1) ex, of mi "Suc i"] show ?thesis
        using True Cons.prems(1) False
        by (auto simp: Let_def Suc_diff_le less_Suc_eq_0_disj)
    next
      case ng: False
      from Cons.IH [OF False ex, of i "Suc i"] show ?thesis
        using ng Cons.prems(1) False
        by (auto simp: Let_def Suc_diff_le less_Suc_eq_0_disj)
    qed
  qed
qed

section \<open>Labels\<close>

lemma predict_eq:
  "predict v s X =
     (if \<not> fitted s then Inl (NotFittedError s)
      else case centroids s of
        None \<Rightarrow> Inl (if v = MiniBatchKMeansClustering then TypeError else AttributeError)
      | Some cs \<Rightarrow> argmin_axis1 (length cs) (distances v X cs))"
  by (cases v)
     (simp_all add: KMeans_predict_def KMeansPlus_predict_def KMedians_predict_def
        MiniBatch_predict_def distances_def split: option.splits)

lemma distances_shape:
  "length (distances v X cs) = length X
   \<and> (\<forall>n < length X. length (distances v X cs ! n) = length cs)"
  by (simp add: distances_def euclid_distances_def manhattan_distances_def)

lemma predict_labels:
  assumes "predict v s X = Inr ls"
  shows "\<exists>cs. centroids s = Some cs \<and> cs \<noteq> []
           \<and> ls = map np_argmin (distances v X cs)
           \<and> list_all (\<lambda>l. l < length cs) ls"
proof -
  from assms obtain cs where cs: "centroids s = Some cs" and ne: "cs \<noteq> []"
    and ls: "ls = map np_argmin (distances v X cs)"
    by (auto simp: predict_eq argmin_axis1_def split: if_splits option.splits)
  have "l < length cs" if "l \<in> set ls" for l
  proof -
    from that ls obtain n where n: "n < length X" and l: "l = np_argmin (distances v X cs ! n)"
      using distances_shape [of v X cs] by (auto simp: in_set_conv_nth)
    have len: "length (distances v X cs ! n) = length cs" using distances_shape n by blast
    with ne have "distances v X cs ! n \<noteq> []" by auto
    from np_argmin_less [OF this] len l show ?thesis by simp
  qed
  then have "list_all (\<lambda>l. l < length cs) ls" by (simp add: list_all_iff)
  with cs ne ls show ?thesis by blast
qed

lemma nan_free_sum: "list_all (\<lambda>d. \<not> is_nan d) v \<Longrightarrow> \<not> is_nan (np_sum v)"
proof (induction v)
  case Nil
  then show ?case by (simp add: np_sum_def)
next
  case (Cons a v)
  then show ?case by (cases a; cases "np_sum v") (simp_all add: np_sum_def)
qed

lemma nan_free_row_sub:
  "list_all (\<lambda>d. \<not> is_nan d) c \<Longrightarrow> list_all (\<lambda>d. \<not> is_nan d) (row_sub x c)"
proof (induction c arbitrary: x)
  case Nil
  then show ?case by (simp add: row_sub_def)
next
  case (Cons a c)
  then show ?case by (cases x; cases a) (simp_all add: row_sub_def)
qed

lemma nan_free_norms:
  assumes "list_all (\<lambda>d. \<not> is_nan d) v"
  shows "\<not> is_nan (linalg_norm v)" and "\<not> is_nan (abs_sum v)"
proof -
  have a: "list_all (\<lambda>d. \<not> is_nan d) (map (\<lambda>a. np_square (np_abs a)) v)"
    using assms by (induction v) (auto elim: is_nan.elims)
  have b: "list_all (\<lambda>d. \<not> is_nan d) (map np_abs v)"
    using assms by (induction v) (auto elim: is_nan.elims)
  from nan_free_sum [OF a] show "\<not> is_nan (linalg_norm v)"
    by (cases "np_sum (map (\<lambda>a. np_square (np_abs a)) v)") (simp_all add: linalg_norm_def)
  from nan_free_sum [OF b] show "\<not> is_nan (abs_sum v)" by (simp add: abs_sum_def)
qed

lemma nan_free_distances:
  assumes "list_all (list_all (\<lambda>d. \<not> is_nan d)) cs" and "n < length X"
  shows "list_all (\<lambda>d. \<not> is_nan d) (distances v X cs ! n)"
  using assms nan_free_norms nan_free_row_sub
  by (auto simp: distances_def euclid_distances_def manhattan_distances_def list_all_iff)

text \<open>
  Every label is the number of a reference row. When no reference row holds a \<^verbatim>\<open>nan\<close>, the
  label of a point is the lowest index of a nearest reference row.
\<close>

lemma labels_nearest_without_nan:
  assumes "predict v s X = Inr ls" and "centroids s = Some cs"
    and "list_all (list_all (\<lambda>d. \<not> is_nan d)) cs" and "n < length X"
  shows "nearest (distances v X cs ! n) (ls ! n)
       \<and> (\<forall>k < ls ! n. \<not> nearest (distances v X cs ! n) k)"
proof -
  from predict_labels [OF assms(1)] assms(2)
  have ne: "cs \<noteq> []" and ls: "ls = map np_argmin (distances v X cs)" by auto
  have len: "length (distances v X cs ! n) = length cs"
    using distances_shape assms(4) by blast
  then have dne: "distances v X cs ! n \<noteq> []" using ne by auto
  have l: "ls ! n = np_argmin (distances v X cs ! n)"
    using ls assms(4) distances_shape [of v X cs] by simp
  from np_argmin_nearest [OF dne nan_free_distances [OF assms(3,4)]] l
  show ?thesis by simp
qed

section \<open>The number of reference rows\<close>

lemma choice_no_replace_length:
  assumes "choice_no_replace m k rs = Inr (idx, rs')"
  shows "length idx = nat k"
proof -
  from assms have k: "0 \<le> k" "k \<le> int m"
    by (auto simp: choice_no_replace_def split: if_splits)
  from choice_no_replace_ok [OF k, of rs] assms show ?thesis by auto
qed

lemma KMeans_loop_rows:
  "length cs = nat K \<Longrightarrow> KMeans_loop X K n it cs = Inr (cs', it') \<Longrightarrow> length cs' = nat K"
proof (induction n arbitrary: it cs)
  case 0
  then show ?case by simp
next
  case (Suc n)
  from Suc.prems(2) show ?case
  proof (cases "KMeans_iteration X K cs")
    case (Inl e)
    with Suc.prems(2) show ?thesis by (simp add: KMeans_loop_Suc del: KMeans_loop.simps)
  next
    case (Inr new)
    then have l: "length new = nat K"
      by (auto simp: KMeans_iteration_def KMeans_update_def split: sum.splits)
    show ?thesis
    proof (cases "np_all_eq new cs")
      case True
      with Inr Suc.prems show ?thesis by (simp add: KMeans_loop_Suc del: KMeans_loop.simps)
    next
      case False
      with Inr Suc.prems(2) have "KMeans_loop X K n (Suc it) new = Inr (cs', it')"
        by (simp add: KMeans_loop_Suc del: KMeans_loop.simps)
      from Suc.IH [OF l this] show ?thesis .
    qed
  qed
qed

lemma KMedians_loop_rows:
  "length cs = nat K \<Longrightarrow> KMedians_loop X K n it cs = Inr (cs', it') \<Longrightarrow> length cs' = nat K"
proof (induction n arbitrary: it cs)
  case 0
  then show ?case by simp
next
  case (Suc n)
  from Suc.prems(2) show ?case
  proof (cases "KMedians_iteration X K cs")
    case (Inl e)
    with Suc.prems(2) show ?thesis by (simp add: KMedians_loop_Suc del: KMedians_loop.simps)
  next
    case (Inr new)
    then have l: "length new = nat K"
      by (auto simp: KMedians_iteration_def KMedians_update_def split: sum.splits)
    show ?thesis
    proof (cases "np_all_eq new cs")
      case True
      with Inr Suc.prems show ?thesis by (simp add: KMedians_loop_Suc del: KMedians_loop.simps)
    next
      case False
      with Inr Suc.prems(2) have "KMedians_loop X K n (Suc it) new = Inr (cs', it')"
        by (simp add: KMedians_loop_Suc del: KMedians_loop.simps)
      from Suc.IH [OF l this] show ?thesis .
    qed
  qed
qed

lemma KMeansPlus_loop_rows:
  "KMeansPlus_loop X K v n it cs = Inr (cs', it') \<Longrightarrow> length cs' = length cs"
proof (induction n arbitrary: it cs)
  case 0
  then show ?case by simp
next
  case (Suc n)
  from Suc.prems obtain ls where
    "KMeansPlus_loop X K v n (Suc it) (KMeansPlus_update X K ls cs) = Inr (cs', it')"
    by (auto simp: Let_def split: sum.splits if_splits)
  from Suc.IH [OF this] show ?case by simp
qed

lemma MiniBatch_loop_rows:
  "MiniBatch_loop X K b n it rs cs = Inr (cs', it') \<Longrightarrow> length cs' = length cs"
proof (induction n arbitrary: it rs cs)
  case 0
  then show ?case by simp
next
  case (Suc n)
  from Suc.prems obtain rs' batch ls where
    "MiniBatch_loop X K b n (Suc it) rs' (MiniBatch_update batch K ls cs) = Inr (cs', it')"
    by (auto simp: Let_def split: sum.splits prod.splits)
  from Suc.IH [OF this] show ?case by simp
qed

lemma seed_loop_length:
  "seed_loop X k seeds rs = Inr (seeds', rs') \<Longrightarrow> length seeds' = length seeds + k"
proof (induction k arbitrary: seeds rs)
  case 0
  then show ?case by simp
next
  case (Suc k)
  from Suc.prems obtain i rs1 where "seed_loop X k (seeds @ [X ! i]) rs1 = Inr (seeds', rs')"
    by (auto split: sum.splits prod.splits)
  from Suc.IH [OF this] show ?case by simp
qed

lemma fit_reference_rows:
  assumes "fit v s X rs = (Inr it, s')" and "1 \<le> n_clusters s"
  shows "\<exists>cs. centroids s' = Some cs \<and> int (length cs) = n_clusters s
           \<and> n_clusters s' = n_clusters s \<and> fitted s'"
proof (cases v)
  case KMeansClustering
  with assms(1) obtain idx rs' cs where
      c: "choice_no_replace (length X) (n_clusters s) rs = Inr (idx, rs')"
    and l: "KMeans_loop X (n_clusters s) (nat (max_iter s)) 0 (as_refset (take_rows X idx))
              = Inr (cs, it)"
    and s': "s' = s\<lparr>centroids := Some (as_refset (take_rows X idx)), X_train := Some X,
                     centroids := Some cs, fitted := True\<rparr>"
    by (auto simp: KMeans_fit_def Let_def split: sum.splits prod.splits)
  have "length (as_refset (take_rows X idx)) = nat (n_clusters s)"
    using choice_no_replace_length [OF c] by (simp add: as_refset_def take_rows_def)
  from KMeans_loop_rows [OF this l] s' assms(2) show ?thesis by simp
next
  case KMeansClusteringPlus
  with assms(1) obtain seeds rs' cs where
      i: "initialize_centroids (n_clusters s) X rs = Inr (seeds, rs')"
    and l: "KMeansPlus_loop X (n_clusters s) (verbose s) (nat (max_iter s)) 0 (as_refset seeds)
              = Inr (cs, it)"
    and s': "s' = s\<lparr>X_train := Some X, centroids := Some cs, fitted := True\<rparr>"
    by (auto simp: KMeansPlus_fit_def Let_def split: sum.splits prod.splits option.splits)
  from i obtain first rs1 where "seed_loop X (nat (n_clusters s - 1)) [X ! first] rs1
       = Inr (seeds, rs')"
    by (auto simp: initialize_centroids_def split: sum.splits prod.splits)
  from seed_loop_length [OF this] have "length seeds = 1 + nat (n_clusters s - 1)" by simp
  with KMeansPlus_loop_rows [OF l] s' assms(2) show ?thesis by (simp add: as_refset_def)
next
  case KMediansClustering
  with assms(1) obtain idx rs' cs where
      c: "choice_no_replace (length X) (n_clusters s) rs = Inr (idx, rs')"
    and l: "KMedians_loop X (n_clusters s) (nat (max_iter s)) 0 (as_refset (take_rows X idx))
              = Inr (cs, it)"
    and s': "s' = s\<lparr>X_train := Some X, centroids := Some cs, fitted := True\<rparr>"
    by (auto simp: KMedians_fit_def Let_def split: sum.splits prod.splits)
  have "length (as_refset (take_rows X idx)) = nat (n_clusters s)"
    using choice_no_replace_length [OF c] by (simp add: as_refset_def take_rows_def)
  from KMedians_loop_rows [OF this l] s' assms(2) show ?thesis by simp
next
  case MiniBatchKMeansClustering
  with assms(1) obtain idx rs' cs where
      c: "choice_no_replace (length X) (n_clusters s) rs = Inr (idx, rs')"
    and l: "MiniBatch_loop X (n_clusters s) (batch_size s) (nat (max_iter s)) 0 rs'
              (as_refset (take_rows X idx)) = Inr (cs, it)"
    and s': "s' = s\<lparr>X_train := Some X, centroids := Some cs, fitted := True\<rparr>"
    by (auto simp: MiniBatch_fit_def Let_def split: sum.splits prod.splits)
  have "length (as_refset (take_rows X idx)) = nat (n_clusters s)"
    using choice_no_replace_length [OF c] by (simp add: as_refset_def take_rows_def)
  with MiniBatch_loop_rows [OF l] s' assms(2) show ?thesis by simp
qed

text \<open>After a successful \<open>fit\<close> with at least one cluster, every label is below
  \<open>n_clusters\<close>.\<close>

lemma labels_in_range_after_fit:
  assumes "fit v s X rs = (Inr it, s')" and "1 \<le> n_clusters s" and "predict v s' Y = Inr ls"
  shows "list_all (\<lambda>l. int l < n_clusters s') ls"
proof -
  from fit_reference_rows [OF assms(1,2)] obtain cs where
    cs: "centroids s' = Some cs" and n: "int (length cs) = n_clusters s'" by auto
  from predict_labels [OF assms(3)] cs have "list_all (\<lambda>l. l < length cs) ls" by auto
  then have "list_all (\<lambda>l. int l < int (length cs)) ls" by (simp add: list_all_iff)
  then show ?thesis by (simp only: n)
qed

section \<open>A label that names no nearest reference row\<close>

lemmas fit_eval = KMeans_fit_def KMeans_init_def choice_no_replace_def next_raw_def take_rows_def
  as_refset_def KMeans_loop_numeral sample_pool_numeral KMeans_update_def np_all_eq_def

text \<open>K-Medians on the same data: the median of an empty cluster is \<^verbatim>\<open>nan\<close> as well.\<close>

lemma KMedians_names_nan_row:
  "KMedians_fit (KMedians_init 2 1 False) [[0], [0]] [] =
     (Inr 1, (KMedians_init 2 1 False)
        \<lparr>X_train := Some [[0], [0]], centroids := Some [[Fin 0], [NaN]], fitted := True\<rparr>)
   \<and> KMedians_predict
         ((KMedians_init 2 1 False)
            \<lparr>X_train := Some [[0], [0]], centroids := Some [[Fin 0], [NaN]], fitted := True\<rparr>)
         [[0]] = Inr [1]
   \<and> manhattan_distances [[0]] [[Fin 0], [NaN]] = [[Fin 0, NaN]]"
  by (simp add: KMedians_fit_def KMedians_init_def choice_no_replace_def next_raw_def
        take_rows_def as_refset_def KMedians_loop_numeral sample_pool_numeral
        KMedians_update_def np_all_eq_def step_eval KMedians_predict_def numeral_2_eq_2)

text \<open>
  Claim C7. Every label \<open>predict\<close> returns is to be the lowest index of a nearest reference
  row. The code breaks this after a fit of K-Means whose update met an empty cluster: with
  the rows \<open>[0]\<close> and \<open>[0]\<close>, two clusters and one iteration, the second reference row
  becomes \<^verbatim>\<open>nan\<close>, and \<open>predict\<close> labels the point \<open>[0]\<close> with 1, the \<^verbatim>\<open>nan\<close> row, although
  reference row 0 is at distance 0.
\<close>

theorem predict_names_nan_row:
  "KMeans_fit (KMeans_init 2 1 False) [[0], [0]] [] =
     (Inr 1, (KMeans_init 2 1 False)
        \<lparr>X_train := Some [[0], [0]], centroids := Some [[Fin 0], [NaN]], fitted := True\<rparr>)
   \<and> KMeans_predict
         ((KMeans_init 2 1 False)
            \<lparr>X_train := Some [[0], [0]], centroids := Some [[Fin 0], [NaN]], fitted := True\<rparr>)
         [[0]] = Inr [1]
   \<and> euclid_distances [[0]] [[Fin 0], [NaN]] = [[Fin 0, NaN]]
   \<and> nearest [Fin 0, NaN] 0
   \<and> \<not> nearest [Fin 0, NaN] 1"
  by (simp add: fit_eval step_eval KMeans_predict_def nearest_def numeral_2_eq_2)

end
